theory Spec2Isabelle
  imports Complex_Main "HOL-Library.Char_ord" "HOL-Library.List_Lexorder" "HOL-Library.AList"
begin

section \<open>Timezone table generation (TimezoneTableTasks.py)\<close>

text \<open>
  A shallow embedding of the three QGIS tasks of \<^verbatim>\<open>src/localedata/qgis/TimezoneTableTasks.py\<close>.

  Conventions of the embedding.
  \<^item> Python \<^verbatim>\<open>str\<close> is \<^typ>\<open>string\<close>; \<^verbatim>\<open>len\<close> is \<^const>\<open>length\<close> and the order used by
    \<^verbatim>\<open>list.sort()\<close> is the lexicographic order on character codes.
  \<^item> A Python \<^verbatim>\<open>set\<close> is a HOL set. Its iteration order depends on string hashing and is
    not fixed by the language, so every \<^verbatim>\<open>list(s)\<close> of a set goes through a parameter
    \<open>enum\<close>, the order in which that run enumerates the set.
  \<^item> A Python \<^verbatim>\<open>dict\<close> is an association list in insertion order; storing under an existing
    key keeps the key's position, as in Python.
  \<^item> The geometry engine of the host application is a parameter \<open>eng\<close>; areas are exact
    rationals standing for the engine's floating point numbers.
  \<^item> Exceptions are values of \<open>error + 'a\<close>.
  \<^item> The three tables that the module imports from \<^verbatim>\<open>config\<close> are the fields of a
    parameter \<open>cfg\<close>: the properties hold for every configuration.
  \<^item> A feature is read through one field per layer (\<^verbatim>\<open>tzid\<close>, which the code also spells
    \<^verbatim>\<open>tzId\<close>, \<^verbatim>\<open>ISO3166-1\<close>, \<^verbatim>\<open>ISO3166-2\<close>), a non-null string.
\<close>

subsection \<open>Data\<close>

datatype error = KeyError string | ZeroDivisionError

text \<open>A feature of a vector layer: the one attribute the tasks read from that layer
  (\<^verbatim>\<open>tzid\<close>, \<^verbatim>\<open>ISO3166-1\<close> or \<^verbatim>\<open>ISO3166-2\<close>) and its geometry.\<close>

record 'g feature =
  attribute :: string
  geometry :: 'g

text \<open>The geometry operations the tasks call: \<^verbatim>\<open>g.area()\<close>, \<^verbatim>\<open>g.intersects(h)\<close>,
  \<^verbatim>\<open>g.intersection(h)\<close>.\<close>

record 'g engine =
  area :: "'g \<Rightarrow> rat"
  intersects :: "'g \<Rightarrow> 'g \<Rightarrow> bool"
  intersection :: "'g \<Rightarrow> 'g \<Rightarrow> 'g"

text \<open>The tables imported from \<^verbatim>\<open>config\<close>; the two dictionaries as association lists, the
  disambiguation table as the sequence of pairs the code iterates over.\<close>

record config =
  TZID_MAP :: "(string \<times> string) list"
  ISO3166_1_MAP :: "(string \<times> string) list"
  ISO3166_1_DISAMBIGUATION_MAP :: "(string \<times> string) list"

text \<open>\<^verbatim>\<open>self.context\<close>: the layers the tasks read.\<close>

record 'g task_context =
  countryLayer :: "'g feature list"
  subdivLayer :: "'g feature list"
  tzLayer :: "'g feature list"

subsection \<open>Module-level helpers\<close>

definition replace_char :: "char \<Rightarrow> char \<Rightarrow> string \<Rightarrow> string" where
  "replace_char old new s = map (\<lambda>c. if c = old then new else c) s"

definition tzIdToEnum :: "string \<Rightarrow> string" where
  "tzIdToEnum tzId = replace_char (CHR ''-'') (CHR ''_'') (replace_char (CHR ''/'') (CHR ''_'') tzId)"

definition normalizedTz :: "config \<Rightarrow> string \<Rightarrow> string" where
  "normalizedTz cfg tzId =
     (case map_of (TZID_MAP cfg) tzId of Some t \<Rightarrow> t | None \<Rightarrow> tzId)"

definition normalizedCountry :: "config \<Rightarrow> string \<Rightarrow> string" where
  "normalizedCountry cfg code =
     (case map_of (ISO3166_1_MAP cfg) code of Some c \<Rightarrow> c | None \<Rightarrow> code)"

text \<open>Python's \<^verbatim>\<open>/\<close> on floats raises on a zero divisor.\<close>

definition float_div :: "rat \<Rightarrow> rat \<Rightarrow> error + rat" where
  "float_div a b = (if b = 0 then Inl ZeroDivisionError else Inr (a / b))"

text \<open>The test every matching loop makes once two geometries intersect: both ratios are
  computed (the timezone's first), then compared with the thresholds 0.01 and 0.1.\<close>

definition dual_threshold :: "rat \<Rightarrow> rat \<Rightarrow> rat \<Rightarrow> error + bool" where
  "dual_threshold a tzArea regionArea =
     (case float_div a tzArea of
        Inl e \<Rightarrow> Inl e
      | Inr tzAreaRatio \<Rightarrow>
          (case float_div a regionArea of
             Inl e \<Rightarrow> Inl e
           | Inr regionAreaRatio \<Rightarrow> Inr (tzAreaRatio > 1 / 100 \<or> regionAreaRatio > 1 / 10)))"

text \<open>Decimal rendering of an integer, as an f-string does.\<close>

definition digit_char :: "nat \<Rightarrow> char" where
  "digit_char d = char_of (48 + d)"

function string_of_nat :: "nat \<Rightarrow> string" where
  "string_of_nat n =
     (if n < 10 then [digit_char n] else string_of_nat (n div 10) @ [digit_char (n mod 10)])"
  by pat_completeness auto
termination
  by (relation "measure id") auto

definition string_of_int :: "int \<Rightarrow> string" where
  "string_of_int i = (if i < 0 then CHR ''-'' # string_of_nat (nat (- i)) else string_of_nat (nat i))"

definition license_header :: string where
  "license_header =
     ''/*\<newline> * SPDX-License-Identifier: ODbL-1.0\<newline>'' @
     '' * SPDX-FileCopyrightText: OpenStreetMap contributors\<newline> *\<newline>'' @
     '' * Autogenerated using QGIS - do not edit!\<newline> */\<newline>\<newline>''"

definition map_includes :: string where
  \<open>map_includes =
     ''#include "isocodes_p.h"\<newline>#include "mapentry_p.h"\<newline>'' @
     ''#include "timezone_names_p.h"\<newline>\<newline>''\<close>

subsection \<open>Task 1: TimezoneStringTableTask\<close>

text \<open>The first loop of \<^verbatim>\<open>run\<close>: the set of the layer's identifiers.\<close>

fun collect_tzIds :: "'g feature list \<Rightarrow> string set \<Rightarrow> string set" where
  "collect_tzIds [] tzIds = tzIds"
| "collect_tzIds (tz # rest) tzIds = collect_tzIds rest (insert (attribute tz) tzIds)"

text \<open>\<^verbatim>\<open>tzIds = list(tzIds); tzIds.sort()\<close>\<close>

definition sorted_tzIds :: "(string set \<Rightarrow> string list) \<Rightarrow> 'g feature list \<Rightarrow> string list" where
  "sorted_tzIds enum layer = sort (enum (collect_tzIds layer {}))"

text \<open>The loop that appends \<^verbatim>\<open>offsets[-1] + len(tzId) + 1\<close> for every identifier.\<close>

fun offsets_loop :: "string list \<Rightarrow> int list \<Rightarrow> int list" where
  "offsets_loop [] offsets = offsets"
| "offsets_loop (tzId # rest) offsets =
     offsets_loop rest (offsets @ [last offsets + int (length tzId) + 1])"

definition tz_offsets :: "string list \<Rightarrow> int list" where
  "tz_offsets tzIds = offsets_loop tzIds [0]"

text \<open>The enumerators written to \<^verbatim>\<open>timezone_names_p.h\<close>, as (name, value) pairs, and the value
  of the \<^verbatim>\<open>Undefined\<close> sentinel.\<close>

definition enum_entries :: "string list \<Rightarrow> (string \<times> int) list" where
  "enum_entries tzIds =
     map (\<lambda>i. (tzIdToEnum (tzIds ! i), tz_offsets tzIds ! i)) [0..<length tzIds]"

definition undefined_offset :: "string list \<Rightarrow> int" where
  "undefined_offset tzIds = last (tz_offsets tzIds) - 1"

text \<open>The character array that the literal written to \<^verbatim>\<open>timezone_name_table.cpp\<close> denotes:
  one line \<^verbatim>\<open>"<tzId>\0"\<close> per identifier (the terminator the compiler appends to a
  literal is not counted).\<close>

definition string_blob :: "string list \<Rightarrow> string" where
  "string_blob tzIds = concat (map (\<lambda>tzId. tzId @ [CHR 0x00]) tzIds)"

text \<open>The text of the two files. The first is written line by line, then its last
  character is overwritten by \<^verbatim>\<open>";\n"\<close>.\<close>

definition name_table_line :: "string \<Rightarrow> string" where
  \<open>name_table_line tzId = ''    "'' @ tzId @ [CHR 0x5C] @ ''0"\<newline>''\<close>

definition name_table_file :: "string list \<Rightarrow> string" where
  "name_table_file tzIds =
     butlast (license_header @ ''static constexpr const char timezone_name_table[] =\<newline>'' @
              concat (map name_table_line tzIds))
     @ '';\<newline>''"

definition enum_line :: "string \<times> int \<Rightarrow> string" where
  "enum_line e = ''    '' @ fst e @ '' = '' @ string_of_int (snd e) @ '',\<newline>''"

definition names_header_file :: "string list \<Rightarrow> string" where
  "names_header_file tzIds =
     license_header @
     ''#ifndef TIMEZONE_NAMES_P_H\<newline>#define TIMEZONE_NAMES_P_H\<newline>\<newline>'' @
     ''#include <cstdint>\<newline>\<newline>enum Tz : uint16_t {\<newline>'' @
     concat (map enum_line (enum_entries tzIds)) @
     ''    Undefined = '' @ string_of_int (undefined_offset tzIds) @ '',\<newline>'' @
     ''};\<newline>\<newline>#endif\<newline>''"

text \<open>\<^verbatim>\<open>TimezoneStringTableTask.run\<close>: the files written, as (path, text) pairs.\<close>

definition TimezoneStringTableTask_run ::
  "(string set \<Rightarrow> string list) \<Rightarrow> 'g task_context \<Rightarrow> (string \<times> string) list" where
  "TimezoneStringTableTask_run enum ctx =
     (let tzIds = sorted_tzIds enum (tzLayer ctx) in
      [(''../../data/timezone_name_table.cpp'', name_table_file tzIds),
       (''../../data/timezone_names_p.h'', names_header_file tzIds)])"

subsection \<open>Task 2: RegionToTimezoneMapTask\<close>

text \<open>The inner loop of the country pass: the timezones matching one country feature are
  added to the set stored for its code.\<close>

fun country_tz_loop ::
  "'g engine \<Rightarrow> config \<Rightarrow> 'g \<Rightarrow> rat \<Rightarrow> 'g feature list \<Rightarrow> string set \<Rightarrow> error + string set" where
  "country_tz_loop eng cfg countryGeom countryArea [] tzs = Inr tzs"
| "country_tz_loop eng cfg countryGeom countryArea (tz # rest) tzs =
     (if intersects eng (geometry tz) countryGeom then
        (case dual_threshold (area eng (intersection eng (geometry tz) countryGeom))
                (area eng (geometry tz)) countryArea of
           Inl e \<Rightarrow> Inl e
         | Inr ok \<Rightarrow>
             country_tz_loop eng cfg countryGeom countryArea rest
               (if ok then insert (normalizedTz cfg (attribute tz)) tzs else tzs))
      else country_tz_loop eng cfg countryGeom countryArea rest tzs)"

text \<open>The country pass. A key found in the dictionary itself is looked up with
  \<^const>\<open>the\<close>: no \<^verbatim>\<open>KeyError\<close> can occur there.\<close>

fun country_loop ::
  "'g engine \<Rightarrow> config \<Rightarrow> 'g feature list \<Rightarrow> 'g feature list \<Rightarrow> (string \<times> string set) list
     \<Rightarrow> error + (string \<times> string set) list" where
  "country_loop eng cfg tzs [] countryToTz = Inr countryToTz"
| "country_loop eng cfg tzs (country # rest) countryToTz =
     (let countryCode = attribute country;
          countryToTz1 = (if map_of countryToTz countryCode = None
                          then AList.update countryCode {} countryToTz else countryToTz)
      in case country_tz_loop eng cfg (geometry country) (area eng (geometry country)) tzs
                (the (map_of countryToTz1 countryCode)) of
           Inl e \<Rightarrow> Inl e
         | Inr s \<Rightarrow> country_loop eng cfg tzs rest (AList.update countryCode s countryToTz1))"

text \<open>The rows of \<^verbatim>\<open>country_timezone_map.cpp\<close>, as (country code, timezone identifier)
  pairs: one for every key, in sorted order, whose set has one element.\<close>

definition country_rows ::
  "(string set \<Rightarrow> string list) \<Rightarrow> (string \<times> string set) list \<Rightarrow> (string \<times> string) list" where
  "country_rows enum countryToTz =
     concat (map (\<lambda>country.
                if card (the (map_of countryToTz country)) = 1
                then [(country, hd (enum (the (map_of countryToTz country))))] else [])
             (sort (map fst countryToTz)))"

definition country_row_text :: "string \<times> string \<Rightarrow> string" where
  \<open>country_row_text r =
     ''    {IsoCodes::alpha2CodeToKey("'' @ fst r @ ''"), Tz::'' @ tzIdToEnum (snd r) @ ''},\<newline>''\<close>

definition country_file :: "(string \<times> string) list \<Rightarrow> string" where
  "country_file rows =
     license_header @ map_includes @
     ''static constexpr const MapEntry<uint16_t> country_timezone_map[] = {\<newline>'' @
     concat (map country_row_text rows) @ ''};\<newline>''"

text \<open>The subdivision pass. \<^verbatim>\<open>subdivToTz[code]\<close> is a dictionary from timezone identifier to
  accumulated intersection area.\<close>

definition add_area :: "string \<Rightarrow> rat \<Rightarrow> (string \<times> rat) list \<Rightarrow> (string \<times> rat) list" where
  "add_area tzId a d =
     (case map_of d tzId of
        None \<Rightarrow> AList.update tzId a d
      | Some old \<Rightarrow> AList.update tzId (old + a) d)"

fun subdiv_tz_loop ::
  "'g engine \<Rightarrow> config \<Rightarrow> 'g \<Rightarrow> rat \<Rightarrow> 'g feature list \<Rightarrow> (string \<times> rat) list
     \<Rightarrow> error + (string \<times> rat) list" where
  "subdiv_tz_loop eng cfg subdivGeom subdivArea [] d = Inr d"
| "subdiv_tz_loop eng cfg subdivGeom subdivArea (tz # rest) d =
     (if intersects eng (geometry tz) subdivGeom then
        (case dual_threshold (area eng (intersection eng (geometry tz) subdivGeom))
                (area eng (geometry tz)) subdivArea of
           Inl e \<Rightarrow> Inl e
         | Inr ok \<Rightarrow>
             subdiv_tz_loop eng cfg subdivGeom subdivArea rest
               (if ok then add_area (normalizedTz cfg (attribute tz))
                             (area eng (intersection eng (geometry tz) subdivGeom)) d
                else d))
      else subdiv_tz_loop eng cfg subdivGeom subdivArea rest d)"

fun subdiv_loop ::
  "'g engine \<Rightarrow> config \<Rightarrow> (string \<times> string set) list \<Rightarrow> 'g feature list \<Rightarrow> 'g feature list
     \<Rightarrow> (string \<times> (string \<times> rat) list) list \<Rightarrow> error + (string \<times> (string \<times> rat) list) list" where
  "subdiv_loop eng cfg countryToTz tzs [] subdivToTz = Inr subdivToTz"
| "subdiv_loop eng cfg countryToTz tzs (subdiv # rest) subdivToTz =
     (let code = attribute subdiv; country = take 2 code in
      case map_of countryToTz country of
        None \<Rightarrow> Inl (KeyError country)
      | Some ctzs \<Rightarrow>
          if card ctzs \<le> 1 then subdiv_loop eng cfg countryToTz tzs rest subdivToTz
          else
            (let subdivToTz1 = (if map_of subdivToTz code = None
                                then AList.update code [] subdivToTz else subdivToTz)
             in case subdiv_tz_loop eng cfg (geometry subdiv) (area eng (geometry subdiv)) tzs
                       (the (map_of subdivToTz1 code)) of
                  Inl e \<Rightarrow> Inl e
                | Inr m \<Rightarrow>
                    subdiv_loop eng cfg countryToTz tzs rest (AList.update code m subdivToTz1)))"

text \<open>The lines of \<^verbatim>\<open>subdivision_timezone_map.cpp\<close>. \<^verbatim>\<open>tzs.sort(key=..., reverse=True)\<close> is a
  stable sort into descending order of the key: a stable ascending sort by the negated key.\<close>

datatype subdiv_line = SubdivRow string string | SubdivComment string

definition tzs_by_area :: "(string \<times> rat) list \<Rightarrow> string list" where
  "tzs_by_area m = sort_key (\<lambda>x. - the (map_of m x)) (map fst m)"

definition subdiv_lines :: "(string \<times> (string \<times> rat) list) list \<Rightarrow> subdiv_line list" where
  "subdiv_lines subdivToTz =
     concat (map (\<lambda>subdiv.
                map (SubdivRow subdiv) (tzs_by_area (the (map_of subdivToTz subdiv))) @
                (if length (the (map_of subdivToTz subdiv)) = 0 then [SubdivComment subdiv] else []))
             (sort (map fst subdivToTz)))"

fun subdiv_line_text :: "subdiv_line \<Rightarrow> string" where
  \<open>subdiv_line_text (SubdivRow subdiv tz) =
     ''    {IsoCodes::subdivisionCodeToKey("'' @ subdiv @ ''"), Tz::'' @ tzIdToEnum tz @ ''},\<newline>''\<close>
| \<open>subdiv_line_text (SubdivComment subdiv) = ''    // '' @ subdiv @ ''\<newline>''\<close>

definition subdiv_file :: "subdiv_line list \<Rightarrow> string" where
  "subdiv_file ls =
     license_header @ map_includes @
     ''static constexpr const MapEntry<uint32_t> subdivision_timezone_map[] = {\<newline>'' @
     concat (map subdiv_line_text ls) @ ''};\<newline>''"

text \<open>\<^verbatim>\<open>RegionToTimezoneMapTask.run\<close>: the files written before the run ended, and either the
  exception that ended it or the two maps it stores in the context. The country file is
  closed before the subdivision pass starts.\<close>

definition RegionToTimezoneMapTask_run ::
  "(string set \<Rightarrow> string list) \<Rightarrow> 'g engine \<Rightarrow> config \<Rightarrow> 'g task_context
     \<Rightarrow> (string \<times> string) list
        \<times> (error + (string \<times> string set) list \<times> (string \<times> (string \<times> rat) list) list)" where
  "RegionToTimezoneMapTask_run enum eng cfg ctx =
     (case country_loop eng cfg (tzLayer ctx) (countryLayer ctx) [] of
        Inl e \<Rightarrow> ([], Inl e)
      | Inr countryToTz \<Rightarrow>
          (case subdiv_loop eng cfg countryToTz (tzLayer ctx) (subdivLayer ctx) [] of
             Inl e \<Rightarrow>
               ([(''../../data/country_timezone_map.cpp'',
                  country_file (country_rows enum countryToTz))], Inl e)
           | Inr subdivToTz \<Rightarrow>
               ([(''../../data/country_timezone_map.cpp'',
                  country_file (country_rows enum countryToTz)),
                 (''../../data/subdivision_timezone_map.cpp'',
                  subdiv_file (subdiv_lines subdivToTz))],
                Inr (countryToTz, subdivToTz))))"

subsection \<open>Task 3: TimezoneToCountryMapTask\<close>

fun disambiguate_loop :: "(string \<times> string) list \<Rightarrow> string set \<Rightarrow> string set" where
  "disambiguate_loop [] countries = countries"
| "disambiguate_loop (m # rest) countries =
     (if fst m \<in> countries \<and> snd m \<in> countries then countries - {snd m}
      else disambiguate_loop rest countries)"

definition disambiguateCountries :: "config \<Rightarrow> string set \<Rightarrow> string set" where
  "disambiguateCountries cfg countries =
     (if card countries \<noteq> 2 then countries
      else disambiguate_loop (ISO3166_1_DISAMBIGUATION_MAP cfg) countries)"

text \<open>The inner loop: the countries matching one timezone feature. A normalized code that
  is empty is skipped (\<^verbatim>\<open>if code and ...\<close>).\<close>

fun tz_country_loop ::
  "'g engine \<Rightarrow> config \<Rightarrow> 'g \<Rightarrow> rat \<Rightarrow> 'g feature list \<Rightarrow> string set \<Rightarrow> error + string set" where
  "tz_country_loop eng cfg tzGeom tzArea [] cs = Inr cs"
| "tz_country_loop eng cfg tzGeom tzArea (country # rest) cs =
     (if normalizedCountry cfg (attribute country) = [] then
        tz_country_loop eng cfg tzGeom tzArea rest cs
      else if intersects eng (geometry country) tzGeom then
        (case dual_threshold (area eng (intersection eng (geometry country) tzGeom))
                tzArea (area eng (geometry country)) of
           Inl e \<Rightarrow> Inl e
         | Inr ok \<Rightarrow>
             tz_country_loop eng cfg tzGeom tzArea rest
               (if ok then insert (normalizedCountry cfg (attribute country)) cs else cs))
      else tz_country_loop eng cfg tzGeom tzArea rest cs)"

text \<open>Line 211 tests \<^verbatim>\<open>tz in tzToCountry\<close>: whether the feature object \<^verbatim>\<open>tz\<close> (not its
  identifier \<^verbatim>\<open>tzId\<close>) is a key of a dictionary all of whose keys are strings. A feature
  equals no string, so the test is false whatever the dictionary holds, and the entry of
  \<^verbatim>\<open>tzId\<close> is set to the empty set for every feature (which also makes the later lookups
  of \<^verbatim>\<open>tzToCountry[tzId]\<close> safe).\<close>

definition feature_in_keys :: "'g feature \<Rightarrow> (string \<times> 'a) list \<Rightarrow> bool" where
  "feature_in_keys tz d = False"

fun tz_loop ::
  "'g engine \<Rightarrow> config \<Rightarrow> 'g feature list \<Rightarrow> 'g feature list \<Rightarrow> (string \<times> string set) list
     \<Rightarrow> error + (string \<times> string set) list" where
  "tz_loop eng cfg countries [] tzToCountry = Inr tzToCountry"
| "tz_loop eng cfg countries (tz # rest) tzToCountry =
     (let tzId = attribute tz;
          tzToCountry1 = (if feature_in_keys tz tzToCountry then tzToCountry
                          else AList.update tzId {} tzToCountry)
      in case tz_country_loop eng cfg (geometry tz) (area eng (geometry tz)) countries
                (the (map_of tzToCountry1 tzId)) of
           Inl e \<Rightarrow> Inl e
         | Inr cs \<Rightarrow> tz_loop eng cfg countries rest (AList.update tzId cs tzToCountry1))"

text \<open>The lines of \<^verbatim>\<open>timezone_country_map.cpp\<close>: for every key in sorted order a data row
  or a comment.\<close>

datatype tz_line = TzRow string string | TzComment string

definition tz_lines ::
  "(string set \<Rightarrow> string list) \<Rightarrow> config \<Rightarrow> (string \<times> string set) list \<Rightarrow> tz_line list" where
  "tz_lines enum cfg tzToCountry =
     map (\<lambda>tzId.
            if card (disambiguateCountries cfg (the (map_of tzToCountry tzId))) = 1
            then TzRow tzId (hd (enum (disambiguateCountries cfg (the (map_of tzToCountry tzId)))))
            else TzComment tzId)
         (sort (map fst tzToCountry))"

fun tz_line_text :: "tz_line \<Rightarrow> string" where
  \<open>tz_line_text (TzRow tzId country) =
     ''    {Tz::'' @ tzIdToEnum tzId @ '', IsoCodes::alpha2CodeToKey("'' @ country @ ''")},\<newline>''\<close>
| \<open>tz_line_text (TzComment tzId) = ''    // Tz::'' @ tzIdToEnum tzId @ ''\<newline>''\<close>

definition tz_country_file :: "tz_line list \<Rightarrow> string" where
  "tz_country_file ls =
     license_header @ map_includes @
     ''static constexpr const MapEntry<uint16_t> timezone_country_map[] = {\<newline>'' @
     concat (map tz_line_text ls) @ ''};\<newline>''"

definition TimezoneToCountryMapTask_run ::
  "(string set \<Rightarrow> string list) \<Rightarrow> 'g engine \<Rightarrow> config \<Rightarrow> 'g task_context
     \<Rightarrow> (string \<times> string) list \<times> (error + bool)" where
  "TimezoneToCountryMapTask_run enum eng cfg ctx =
     (case tz_loop eng cfg (countryLayer ctx) (tzLayer ctx) [] of
        Inl e \<Rightarrow> ([], Inl e)
      | Inr tzToCountry \<Rightarrow>
          ([(''../../data/timezone_country_map.cpp'',
             tz_country_file (tz_lines enum cfg tzToCountry))], Inr True))"

subsection \<open>Enumeration orders\<close>

text \<open>An enumeration order for sets: what \<^verbatim>\<open>list(s)\<close> may return for the set \<open>s\<close>.\<close>

definition valid_enum :: "(string set \<Rightarrow> string list) \<Rightarrow> bool" where
  "valid_enum enum = (\<forall>s. finite s \<longrightarrow> set (enum s) = s \<and> distinct (enum s))"

text \<open>Two enumeration orders: ascending and descending.\<close>

definition enum_asc :: "string set \<Rightarrow> string list" where
  "enum_asc s = sorted_list_of_set s"

definition enum_desc :: "string set \<Rightarrow> string list" where
  "enum_desc s = rev (sorted_list_of_set s)"

subsection \<open>The matching rules in the words of the specification\<close>

text \<open>The dual-threshold rule between a timezone feature and a region (a country or a
  subdivision): the geometries intersect, and the intersection covers more than 1% of the
  timezone's area or more than 10% of the region's area.\<close>

definition tz_matches_region :: "'g engine \<Rightarrow> 'g feature \<Rightarrow> 'g \<Rightarrow> bool" where
  "tz_matches_region eng tz regionGeom =
     (intersects eng (geometry tz) regionGeom \<and>
      (area eng (intersection eng (geometry tz) regionGeom) / area eng (geometry tz) > 1 / 100 \<or>
       area eng (intersection eng (geometry tz) regionGeom) / area eng regionGeom > 1 / 10))"

text \<open>The qualifying normalized timezone identifiers of a region code: those of the
  timezone features matching some feature of the region layer that bears the code.\<close>

definition qualifying_tzs ::
  "'g engine \<Rightarrow> config \<Rightarrow> 'g feature list \<Rightarrow> 'g feature list \<Rightarrow> string \<Rightarrow> string set" where
  "qualifying_tzs eng cfg tzs regions code =
     set (concat (map (\<lambda>region.
                         map (\<lambda>tz. normalizedTz cfg (attribute tz))
                             (filter (\<lambda>tz. tz_matches_region eng tz (geometry region)) tzs))
                      (filter (\<lambda>region. attribute region = code) regions)))"

text \<open>The cumulative intersection area of a region code with a normalized timezone
  identifier: the sum of the intersection areas over all matching pairs of a feature bearing
  the code and a timezone feature normalizing to the identifier.\<close>

definition region_tz_area ::
  "'g engine \<Rightarrow> config \<Rightarrow> 'g feature list \<Rightarrow> 'g feature list \<Rightarrow> string \<Rightarrow> string \<Rightarrow> rat" where
  "region_tz_area eng cfg tzs regions code t =
     sum_list (concat (map (\<lambda>region.
                         map (\<lambda>tz. area eng (intersection eng (geometry tz) (geometry region)))
                             (filter (\<lambda>tz. tz_matches_region eng tz (geometry region)
                                            \<and> normalizedTz cfg (attribute tz) = t) tzs))
                      (filter (\<lambda>region. attribute region = code) regions)))"

text \<open>The dual-threshold rule between a country feature and a timezone geometry, with
  the operands in the order of the timezone to country task.\<close>

definition country_matches_tz :: "'g engine \<Rightarrow> 'g feature \<Rightarrow> 'g \<Rightarrow> bool" where
  "country_matches_tz eng country tzGeom =
     (intersects eng (geometry country) tzGeom \<and>
      (area eng (intersection eng (geometry country) tzGeom) / area eng tzGeom > 1 / 100 \<or>
       area eng (intersection eng (geometry country) tzGeom) / area eng (geometry country) > 1 / 10))"

text \<open>The union, over all timezone features bearing the identifier, of the normalized
  codes of the countries matching the feature.\<close>

definition qualifying_countries ::
  "'g engine \<Rightarrow> config \<Rightarrow> 'g feature list \<Rightarrow> 'g feature list \<Rightarrow> string \<Rightarrow> string set" where
  "qualifying_countries eng cfg countries tzs tzId =
     set (concat (map (\<lambda>tz.
                         map (\<lambda>country. normalizedCountry cfg (attribute country))
                             (filter (\<lambda>country. country_matches_tz eng country (geometry tz))
                                countries))
                      (filter (\<lambda>tz. attribute tz = tzId) tzs)))"

text \<open>The normalized codes the inner loop of the timezone to country task collects for
  one timezone geometry: those of the matching countries whose normalized code is not
  empty.\<close>

definition feature_countries :: "'g engine \<Rightarrow> config \<Rightarrow> 'g feature list \<Rightarrow> 'g \<Rightarrow> string set" where
  "feature_countries eng cfg countries tzGeom =
     set (filter (\<lambda>code. code \<noteq> [])
            (map (\<lambda>country. normalizedCountry cfg (attribute country))
               (filter (\<lambda>country. country_matches_tz eng country tzGeom) countries)))"

subsection \<open>Reading the tables\<close>

text \<open>The enumerator names written to \<^verbatim>\<open>timezone_names_p.h\<close> for the identifiers of a layer,
  and the names written after \<^verbatim>\<open>Tz::\<close> in the lines of the three tables (see
  \<^const>\<open>country_row_text\<close>, \<^const>\<open>subdiv_line_text\<close> and \<^const>\<open>tz_line_text\<close>).\<close>

definition enumerators :: "(string set \<Rightarrow> string list) \<Rightarrow> 'g feature list \<Rightarrow> string list" where
  "enumerators enum layer = map fst (enum_entries (sorted_tzIds enum layer))"

definition country_refs :: "(string \<times> string) list \<Rightarrow> string list" where
  "country_refs rows = map (\<lambda>r. tzIdToEnum (snd r)) rows"

fun subdiv_line_refs :: "subdiv_line \<Rightarrow> string list" where
  "subdiv_line_refs (SubdivRow subdiv tz) = [tzIdToEnum tz]"
| "subdiv_line_refs (SubdivComment subdiv) = []"

fun tz_line_ref :: "tz_line \<Rightarrow> string" where
  "tz_line_ref (TzRow tzId country) = tzIdToEnum tzId"
| "tz_line_ref (TzComment tzId) = tzIdToEnum tzId"

text \<open>The identifier a line of the timezone table is written for.\<close>

fun tz_line_id :: "tz_line \<Rightarrow> string" where
  "tz_line_id (TzRow tzId country) = tzId"
| "tz_line_id (TzComment tzId) = tzId"

text \<open>The subdivision code a line of the subdivision table is written for, and the
  timezone identifiers of the data rows of one code, in the order of the table.\<close>

fun subdiv_line_code :: "subdiv_line \<Rightarrow> string" where
  "subdiv_line_code (SubdivRow subdiv tz) = subdiv"
| "subdiv_line_code (SubdivComment subdiv) = subdiv"

fun row_tz_of :: "string \<Rightarrow> subdiv_line \<Rightarrow> string list" where
  "row_tz_of code (SubdivRow subdiv tz) = (if subdiv = code then [tz] else [])"
| "row_tz_of code (SubdivComment subdiv) = []"

definition subdiv_row_tzs :: "string \<Rightarrow> subdiv_line list \<Rightarrow> string list" where
  "subdiv_row_tzs code ls = concat (map (row_tz_of code) ls)"

subsection \<open>Auxiliary functions of the proofs\<close>

text \<open>The offsets appended by \<^const>\<open>offsets_loop\<close>, started at \<open>b\<close>.\<close>

fun running_sums :: "int \<Rightarrow> string list \<Rightarrow> int list" where
  "running_sums b [] = []"
| "running_sums b (s # rest) =
     (b + int (length s) + 1) # running_sums (b + int (length s) + 1) rest"

text \<open>The dictionary stored under a key, empty when the key is absent.\<close>

definition entry :: "(string \<times> 'a list) list \<Rightarrow> string \<Rightarrow> 'a list" where
  "entry d k = (case map_of d k of None \<Rightarrow> [] | Some m \<Rightarrow> m)"

text \<open>Whether the country prefix of a subdivision code maps to more than one timezone in
  the country dictionary.\<close>

definition multi_tz_country :: "(string \<times> string set) list \<Rightarrow> string \<Rightarrow> bool" where
  "multi_tz_country countryToTz code =
     (case map_of countryToTz (take 2 code) of None \<Rightarrow> False | Some s \<Rightarrow> card s > 1)"

text \<open>The lines written for one key of \<^verbatim>\<open>subdivToTz\<close>: the body of the output loop.\<close>

definition subdiv_block :: "(string \<times> (string \<times> rat) list) list \<Rightarrow> string \<Rightarrow> subdiv_line list" where
  "subdiv_block d subdiv =
     map (SubdivRow subdiv) (tzs_by_area (the (map_of d subdiv))) @
     (if length (the (map_of d subdiv)) = 0 then [SubdivComment subdiv] else [])"

subsection \<open>Layers to run the tasks on\<close>

text \<open>A one-dimensional engine to run the tasks on: a geometry is a list of unit cells,
  its area the number of distinct cells.\<close>

definition cells_engine :: "nat list engine" where
  "cells_engine =
     \<lparr> area = (\<lambda>g. of_nat (length (remdups g))),
       intersects = (\<lambda>g h. list_ex (\<lambda>x. x \<in> set h) g),
       intersection = (\<lambda>g h. filter (\<lambda>x. x \<in> set h) g) \<rparr>"

text \<open>A feature from its attribute and its geometry.\<close>

definition feat :: "string \<Rightarrow> 'g \<Rightarrow> 'g feature" where
  "feat a g = \<lparr> attribute = a, geometry = g \<rparr>"

text \<open>A small world: Germany in one timezone, the United States in two with three
  subdivisions (one of them outside every timezone), Switzerland and Liechtenstein sharing
  a timezone.\<close>

definition ex_cfg :: config where
  "ex_cfg = \<lparr> TZID_MAP = [(''Europe/Busingen'', ''Europe/Berlin'')],
              ISO3166_1_MAP = [],
              ISO3166_1_DISAMBIGUATION_MAP = [(''CH'', ''LI'')] \<rparr>"

definition ex_ctx :: "nat list task_context" where
  "ex_ctx =
     \<lparr> countryLayer = [feat ''US'' [10, 11, 12, 13, 14, 15, 16], feat ''DE'' [0, 1, 2, 3],
                       feat ''CH'' [4, 5], feat ''LI'' [5]],
       subdivLayer = [feat ''US-NY'' [10, 11], feat ''US-IL'' [13, 14, 15], feat ''US-AK'' [16],
                      feat ''DE-BE'' [0]],
       tzLayer = [feat ''Europe/Berlin'' [0, 1, 2], feat ''Europe/Busingen'' [3],
                  feat ''America/New_York'' [10, 11, 12, 13], feat ''America/Chicago'' [14, 15],
                  feat ''Europe/Zurich'' [4, 5]] \<rparr>"

text \<open>The layers of the small world with the Illinois subdivision cut so that it overlaps
  both timezones of its country by the same area.\<close>

definition ex_tie_ctx :: "nat list task_context" where
  "ex_tie_ctx = ex_ctx \<lparr> subdivLayer := [feat ''US-IL'' [13, 14]] \<rparr>"

text \<open>The layers of the small world with a single subdivision whose country prefix is
  the code of no country feature.\<close>

definition ex_orphan_ctx :: "nat list task_context" where
  "ex_orphan_ctx = ex_ctx \<lparr> subdivLayer := [feat ''FR-75'' [30]] \<rparr>"

text \<open>A layer with one timezone under an identifier that the configuration normalizes
  to an identifier no feature bears.\<close>

definition ex_alias_cfg :: config where
  "ex_alias_cfg = \<lparr> TZID_MAP = [(''Asia/Calcutta'', ''Asia/Kolkata'')],
                    ISO3166_1_MAP = [],
                    ISO3166_1_DISAMBIGUATION_MAP = [] \<rparr>"

definition ex_alias_ctx :: "nat list task_context" where
  "ex_alias_ctx = \<lparr> countryLayer = [feat ''IN'' [0, 1]], subdivLayer = [],
                    tzLayer = [feat ''Asia/Calcutta'' [0, 1]] \<rparr>"

text \<open>A timezone layer with two features under one identifier: the first lies in Germany,
  the second outside every country.\<close>

definition ex_dup_ctx :: "nat list task_context" where
  "ex_dup_ctx = \<lparr> countryLayer = [feat ''DE'' [0, 1, 2, 3]], subdivLayer = [],
                  tzLayer = [feat ''Europe/Berlin'' [0, 1, 2], feat ''Europe/Berlin'' [7]] \<rparr>"

section \<open>Properties\<close>

lemma collect_tzIds_eq: "collect_tzIds layer acc = acc \<union> attribute ` set layer"
  by (induction layer arbitrary: acc) auto

subsection \<open>Enumeration orders\<close>

lemma valid_enum_asc: "valid_enum enum_asc"
  by (simp add: valid_enum_def enum_asc_def)

lemma valid_enum_desc: "valid_enum enum_desc"
  by (simp add: valid_enum_def enum_desc_def)

lemma valid_enum_hd: "valid_enum enum \<Longrightarrow> hd (enum {x}) = x"
proof -
  assume "valid_enum enum"
  then have "set (enum {x}) = {x}" by (simp add: valid_enum_def)
  then show ?thesis by (cases "enum {x}") auto
qed

subsection \<open>The string table\<close>

lemma offsets_loop_running: "offsets_loop xs offs = offs @ running_sums (last offs) xs"
  by (induction xs arbitrary: offs) auto

lemma running_sums_nth:
  "i \<le> length xs \<Longrightarrow> (b # running_sums b xs) ! i = b + (\<Sum>s\<leftarrow>take i xs. int (length s) + 1)"
proof (induction xs arbitrary: b i)
  case Nil then show ?case by simp
next
  case (Cons x xs)
  show ?case
  proof (cases i)
    case 0 then show ?thesis by simp
  next
    case (Suc j)
    with Cons.prems have "j \<le> length xs" by simp
    from Cons.IH[OF this, of "b + int (length x) + 1"] Suc show ?thesis by simp
  qed
qed

lemma length_running_sums: "length (running_sums b xs) = length xs"
  by (induction xs arbitrary: b) auto

lemma tz_offsets_nth:
  "i \<le> length xs \<Longrightarrow> tz_offsets xs ! i = (\<Sum>s\<leftarrow>take i xs. int (length s) + 1)"
  using running_sums_nth[of i xs 0] by (simp add: tz_offsets_def offsets_loop_running)

lemma length_tz_offsets: "length (tz_offsets xs) = Suc (length xs)"
  by (simp add: tz_offsets_def offsets_loop_running length_running_sums)

lemma last_tz_offsets: "last (tz_offsets xs) = (\<Sum>s\<leftarrow>xs. int (length s) + 1)"
proof -
  have "tz_offsets xs \<noteq> []" using length_tz_offsets[of xs] by auto
  then have "last (tz_offsets xs) = tz_offsets xs ! length xs"
    by (simp add: last_conv_nth length_tz_offsets)
  then show ?thesis by (simp add: tz_offsets_nth)
qed

lemma length_string_blob: "int (length (string_blob xs)) = (\<Sum>s\<leftarrow>xs. int (length s) + 1)"
  by (induction xs) (auto simp: string_blob_def)

lemma string_blob_append: "string_blob (xs @ ys) = string_blob xs @ string_blob ys"
  by (simp add: string_blob_def)

lemma string_blob_at:
  assumes "i < length xs"
  shows "take (length (xs ! i) + 1) (drop (length (string_blob (take i xs))) (string_blob xs))
           = xs ! i @ [CHR 0x00]"
proof -
  have "xs = take i xs @ (xs ! i # drop (Suc i) xs)"
    using assms by (simp add: Cons_nth_drop_Suc)
  then have "string_blob xs = string_blob (take i xs) @ (xs ! i @ [CHR 0x00]) @ string_blob (drop (Suc i) xs)"
    by (metis (no_types, lifting) append_Cons append_Nil string_blob_append string_blob_def concat.simps list.simps(9) append_assoc)
  then show ?thesis by simp
qed

lemma sorted_distinct_take_set:
  fixes xs :: "'a::linorder list"
  assumes "sorted xs" "distinct xs" "i < length xs"
  shows "set (take i xs) = {y \<in> set xs. y < xs ! i}"
proof (rule set_eqI)
  fix y
  show "y \<in> set (take i xs) \<longleftrightarrow> y \<in> {y \<in> set xs. y < xs ! i}"
  proof
    assume "y \<in> set (take i xs)"
    then obtain j where j: "j < length (take i xs)" "take i xs ! j = y"
      by (auto simp: in_set_conv_nth)
    then have ji: "j < i" and yj: "y = xs ! j" by simp_all
    have "xs ! j \<le> xs ! i" using assms(1,3) ji by (simp add: sorted_nth_mono)
    moreover have "xs ! j \<noteq> xs ! i" using assms(2,3) ji by (simp add: nth_eq_iff_index_eq)
    ultimately show "y \<in> {y \<in> set xs. y < xs ! i}"
      using yj ji assms(3) by auto
  next
    assume "y \<in> {y \<in> set xs. y < xs ! i}"
    then obtain j where j: "j < length xs" "xs ! j = y" and lt: "y < xs ! i"
      by (auto simp: in_set_conv_nth)
    have "j < i"
    proof (rule ccontr)
      assume "\<not> j < i"
      then have "xs ! i \<le> xs ! j" using assms(1) j(1) by (simp add: sorted_nth_mono)
      with lt j(2) show False by simp
    qed
    then show "y \<in> set (take i xs)"
      using j by (auto simp: in_set_conv_nth)
  qed
qed

lemma valid_enum_sort:
  assumes "valid_enum enum" "finite s"
  shows "sort (enum s) = sorted_list_of_set s"
  by (metis assms(1,2) remdups_id_iff_distinct
    sorted_list_of_set_sort_remdups valid_enum_def)

lemma finite_collect: "finite (collect_tzIds layer {})"
  by (simp add: collect_tzIds_eq)

lemma sorted_tzIds_props:
  assumes "valid_enum enum"
  shows "sorted (sorted_tzIds enum layer)" "distinct (sorted_tzIds enum layer)"
    "set (sorted_tzIds enum layer) = attribute ` set layer"
  using valid_enum_sort[OF assms finite_collect, of layer]
  by (simp_all add: sorted_tzIds_def collect_tzIds_eq)

lemma offset_as_set_sum:
  assumes "sorted xs" "distinct xs" "i < length xs"
  shows "(\<Sum>s\<leftarrow>take i xs. int (length s) + 1) = (\<Sum>y\<in>{y \<in> set xs. y < xs ! i}. int (length y) + 1)"
proof -
  have "distinct (take i xs)" using assms(2) by simp
  then have "(\<Sum>s\<leftarrow>take i xs. int (length s) + 1) = (\<Sum>y\<in>set (take i xs). int (length y) + 1)"
    by (rule sum_list_distinct_conv_sum_set)
  then show ?thesis using sorted_distinct_take_set[OF assms] by simp
qed

text \<open>
  C3. For every identifier of the layer's deduplicated, sorted identifier list, the
  enumerator written for it is its symbolic name (\<^const>\<open>tzIdToEnum\<close>) with the value: the sum
  of length + 1 over the layer's identifiers that sort strictly before it. That value is the
  length of the blob of the preceding identifiers, and the blob holds the identifier with its
  terminating null character from that index on.
\<close>

theorem C3_enum_offsets:
  assumes "valid_enum enum" and "tzIds = sorted_tzIds enum layer" and "i < length tzIds"
  shows "set tzIds = attribute ` set layer
    \<and> enum_entries tzIds ! i =
        (tzIdToEnum (tzIds ! i),
         (\<Sum>y\<in>{y \<in> attribute ` set layer. y < tzIds ! i}. int (length y) + 1))
    \<and> snd (enum_entries tzIds ! i) = int (length (string_blob (take i tzIds)))
    \<and> take (length (tzIds ! i) + 1) (drop (nat (snd (enum_entries tzIds ! i))) (string_blob tzIds))
        = tzIds ! i @ [CHR 0x00]"
proof -
  have props: "sorted tzIds" "distinct tzIds" "set tzIds = attribute ` set layer"
    using sorted_tzIds_props[OF assms(1)] assms(2) by simp_all
  have entry: "enum_entries tzIds ! i = (tzIdToEnum (tzIds ! i), tz_offsets tzIds ! i)"
    using assms(3) by (simp add: enum_entries_def)
  have off: "tz_offsets tzIds ! i = (\<Sum>s\<leftarrow>take i tzIds. int (length s) + 1)"
    using assms(3) by (simp add: tz_offsets_nth)
  have off_set: "tz_offsets tzIds ! i
      = (\<Sum>y\<in>{y \<in> attribute ` set layer. y < tzIds ! i}. int (length y) + 1)"
    using off offset_as_set_sum[OF props(1,2) assms(3)] props(3) by simp
  have off_blob: "tz_offsets tzIds ! i = int (length (string_blob (take i tzIds)))"
    using off by (simp add: length_string_blob)
  have "take (length (tzIds ! i) + 1) (drop (nat (tz_offsets tzIds ! i)) (string_blob tzIds))
        = tzIds ! i @ [CHR 0x00]"
    using string_blob_at[OF assms(3)] off_blob by simp
  then show ?thesis using props(3) entry off_set off_blob by simp
qed

text \<open>
  C4. The value of the \<^verbatim>\<open>Undefined\<close> enumerator is the length of the blob minus one, the
  length of the blob being the sum of length + 1 over the layer's distinct identifiers; for
  a layer with at least one feature that is the index of the blob's last character, a null
  character.
\<close>

theorem C4_undefined_offset:
  assumes "valid_enum enum" and "tzIds = sorted_tzIds enum layer"
  shows "undefined_offset tzIds = int (length (string_blob tzIds)) - 1
    \<and> int (length (string_blob tzIds)) = (\<Sum>y\<in>attribute ` set layer. int (length y) + 1)
    \<and> (layer \<noteq> [] \<longrightarrow>
         nat (undefined_offset tzIds) < length (string_blob tzIds)
         \<and> string_blob tzIds ! nat (undefined_offset tzIds) = CHR 0x00
         \<and> Suc (nat (undefined_offset tzIds)) = length (string_blob tzIds))"
proof -
  have props: "distinct tzIds" "set tzIds = attribute ` set layer"
    using sorted_tzIds_props[OF assms(1)] assms(2) by simp_all
  have u: "undefined_offset tzIds = int (length (string_blob tzIds)) - 1"
    by (simp add: undefined_offset_def last_tz_offsets length_string_blob)
  have total: "int (length (string_blob tzIds)) = (\<Sum>y\<in>attribute ` set layer. int (length y) + 1)"
    using sum_list_distinct_conv_sum_set[OF props(1), of "\<lambda>y. int (length y) + 1"] props(2)
    by (simp add: length_string_blob)
  have last_nul: "tzIds \<noteq> [] \<Longrightarrow> string_blob tzIds \<noteq> [] \<and> last (string_blob tzIds) = CHR 0x00" for tzIds
  proof (induction tzIds rule: rev_induct)
    case Nil then show ?case by simp
  next
    case (snoc x xs) then show ?case by (simp add: string_blob_def)
  qed
  have "layer \<noteq> [] \<Longrightarrow> tzIds \<noteq> []" using props(2) by auto
  then have ne: "layer \<noteq> [] \<Longrightarrow> string_blob tzIds \<noteq> [] \<and> last (string_blob tzIds) = CHR 0x00"
    using last_nul by blast
  have "layer \<noteq> [] \<longrightarrow>
         nat (undefined_offset tzIds) < length (string_blob tzIds)
         \<and> string_blob tzIds ! nat (undefined_offset tzIds) = CHR 0x00
         \<and> Suc (nat (undefined_offset tzIds)) = length (string_blob tzIds)"
  proof
    assume "layer \<noteq> []"
    with ne have b: "string_blob tzIds \<noteq> []" "last (string_blob tzIds) = CHR 0x00" by simp_all
    then obtain n where n: "length (string_blob tzIds) = Suc n" by (cases "string_blob tzIds") auto
    then have "nat (undefined_offset tzIds) = n" using u by simp
    then show "nat (undefined_offset tzIds) < length (string_blob tzIds)
         \<and> string_blob tzIds ! nat (undefined_offset tzIds) = CHR 0x00
         \<and> Suc (nat (undefined_offset tzIds)) = length (string_blob tzIds)"
      using b n by (simp add: last_conv_nth)
  qed
  then show ?thesis using u total by simp
qed

lemma ex_tzIds: "sorted_tzIds enum_asc (tzLayer ex_ctx)
      = [''America/Chicago'', ''America/New_York'', ''Europe/Berlin'', ''Europe/Busingen'',
         ''Europe/Zurich'']"
  unfolding enum_asc_def by code_simp

theorem C3_enum_offsets_witness:
  "valid_enum enum_asc
   \<and> (2::nat) < length (sorted_tzIds enum_asc (tzLayer ex_ctx))
   \<and> enum_entries (sorted_tzIds enum_asc (tzLayer ex_ctx)) ! 2 = (''Europe_Berlin'', 33)
   \<and> take 14 (drop 33 (string_blob (sorted_tzIds enum_asc (tzLayer ex_ctx))))
       = ''Europe/Berlin'' @ [CHR 0x00]"
proof -
  define T where "T = sorted_tzIds enum_asc (tzLayer ex_ctx)"
  have ids: "T = [''America/Chicago'', ''America/New_York'', ''Europe/Berlin'', ''Europe/Busingen'',
         ''Europe/Zurich'']"
    unfolding T_def by (rule ex_tzIds)
  have len: "(2::nat) < length T" by (simp add: ids)
  note inst = C3_enum_offsets[OF valid_enum_asc T_def len]
  have name: "fst (enum_entries T ! 2) = tzIdToEnum (T ! 2)" using inst by simp
  have off: "snd (enum_entries T ! 2) = int (length (string_blob (take 2 T)))"
    using inst by blast
  have sub: "take (length (T ! 2) + 1) (drop (nat (snd (enum_entries T ! 2))) (string_blob T))
        = T ! 2 @ [CHR 0x00]" using inst by blast
  have name': "tzIdToEnum (T ! 2) = ''Europe_Berlin''"
    by (simp add: ids tzIdToEnum_def replace_char_def)
  have off': "int (length (string_blob (take 2 T))) = 33"
    by (simp add: ids string_blob_def)
  have e: "enum_entries T ! 2 = (''Europe_Berlin'', 33)"
    using name off name' off' by (simp add: prod_eq_iff)
  have l: "length (T ! 2) + 1 = 14" and t2: "T ! 2 = ''Europe/Berlin''" by (simp_all add: ids)
  have n: "nat (snd (enum_entries T ! 2)) = 33" using off off' by simp
  have "take 14 (drop 33 (string_blob T)) = ''Europe/Berlin'' @ [CHR 0x00]"
    using sub unfolding n l unfolding t2 .
  with e len valid_enum_asc show ?thesis unfolding T_def by blast
qed

theorem C4_undefined_offset_witness:
  "valid_enum enum_asc
   \<and> tzLayer ex_ctx \<noteq> []
   \<and> undefined_offset (sorted_tzIds enum_asc (tzLayer ex_ctx)) = 76
   \<and> length (string_blob (sorted_tzIds enum_asc (tzLayer ex_ctx))) = 77
   \<and> string_blob (sorted_tzIds enum_asc (tzLayer ex_ctx)) ! 76 = CHR 0x00"
proof -
  define T where "T = sorted_tzIds enum_asc (tzLayer ex_ctx)"
  have ids: "T = [''America/Chicago'', ''America/New_York'', ''Europe/Berlin'', ''Europe/Busingen'',
         ''Europe/Zurich'']"
    unfolding T_def by (rule ex_tzIds)
  have ne: "tzLayer ex_ctx \<noteq> []" by (simp add: ex_ctx_def)
  have len: "length (string_blob T) = 77"
    by (simp add: ids string_blob_def)
  note inst = C4_undefined_offset[OF valid_enum_asc T_def]
  have u: "undefined_offset T = 76" using inst len by simp
  have "string_blob T ! nat (undefined_offset T) = CHR 0x00" using inst ne by blast
  then have "string_blob T ! 76 = CHR 0x00" by (simp add: u)
  with u len ne valid_enum_asc show ?thesis unfolding T_def by blast
qed

subsection \<open>Dictionaries\<close>

lemma map_of_update_if:
  "map_of (AList.update k v al) k' = (if k' = k then Some v else map_of al k')"
  by (simp add: update_conv')

lemma keys_update: "set (map fst (AList.update k v al)) = insert k (set (map fst al))"
  using dom_update[of k v al] by simp

lemma map_of_keys: "(map_of d k \<noteq> None) = (k \<in> set (map fst d))"
  by (metis domIff dom_map_of_conv_image_fst set_map)

lemma filter_eq_absent: "x \<notin> set xs \<Longrightarrow> filter (\<lambda>i. i = x) xs = []"
  by (induction xs) auto

lemma distinct_filter_eq_one:
  "distinct xs \<Longrightarrow> x \<in> set xs \<Longrightarrow> length (filter (\<lambda>i. i = x) xs) = 1"
  by (induction xs) (auto simp: filter_eq_absent)

subsection \<open>The timezone to country table\<close>

lemma tz_loop_distinct:
  "distinct (map fst d0) \<Longrightarrow> tz_loop eng cfg countries tzs d0 = Inr d \<Longrightarrow> distinct (map fst d)"
proof (induction tzs arbitrary: d0)
  case Nil then show ?case by simp
next
  case (Cons tz rest)
  from Cons.prems(2) obtain cs where
    "tz_loop eng cfg countries rest
       (AList.update (attribute tz) cs (AList.update (attribute tz) {} d0)) = Inr d"
    by (auto simp del: update_last simp: Let_def feature_in_keys_def split: sum.splits)
  moreover have "distinct (map fst (AList.update (attribute tz) cs (AList.update (attribute tz) {} d0)))"
    using Cons.prems(1) by (simp add: distinct_update del: update_last)
  ultimately show ?case using Cons.IH by blast
qed

lemma disambiguate_loop_find:
  "disambiguate_loop ms S =
     (case find (\<lambda>m. fst m \<in> S \<and> snd m \<in> S) ms of None \<Rightarrow> S | Some m \<Rightarrow> S - {snd m})"
  by (induction ms) auto

lemma tz_lines_ids: "map tz_line_id (tz_lines enum cfg d) = sort (map fst d)"
  by (simp add: tz_lines_def comp_def if_distrib[of tz_line_id] cong: if_cong)

lemma ex_tz_loop:
  "tz_loop cells_engine ex_cfg (countryLayer ex_ctx) (tzLayer ex_ctx) []
     = Inr [(''Europe/Berlin'', {''DE''}), (''Europe/Busingen'', {''DE''}),
            (''America/New_York'', {''US''}), (''America/Chicago'', {''US''}),
            (''Europe/Zurich'', {''CH'', ''LI''})]"
  by code_simp

text \<open>
  C8. Let \<open>S\<close> be the candidate country set the run holds for a timezone identifier.
  Disambiguation returns \<open>S\<close> unchanged unless \<open>S\<close> has exactly two elements and some pair of the
  disambiguation list has both members in \<open>S\<close>; then the secondary member of the first such
  pair is removed. The table has exactly one line for the identifier: a data row with country
  \<open>c\<close> if and only if the disambiguated set is \<open>{c}\<close>, a comment naming the timezone if and
  only if the disambiguated set does not have exactly one element.
\<close>

theorem C8_disambiguation_and_rows:
  assumes "valid_enum enum"
    and "tz_loop eng cfg countries tzs [] = Inr tzToCountry"
    and "map_of tzToCountry tzId = Some S"
    and "ls = tz_lines enum cfg tzToCountry"
    and "pairs = ISO3166_1_DISAMBIGUATION_MAP cfg"
  shows "(card S \<noteq> 2 \<longrightarrow> disambiguateCountries cfg S = S)
    \<and> (card S = 2 \<longrightarrow> find (\<lambda>m. fst m \<in> S \<and> snd m \<in> S) pairs = None
          \<longrightarrow> disambiguateCountries cfg S = S)
    \<and> (\<forall>m. card S = 2 \<longrightarrow> find (\<lambda>m. fst m \<in> S \<and> snd m \<in> S) pairs = Some m
          \<longrightarrow> disambiguateCountries cfg S = S - {snd m})
    \<and> length (filter (\<lambda>l. tz_line_id l = tzId) ls) = 1
    \<and> (\<forall>c. TzRow tzId c \<in> set ls \<longleftrightarrow> disambiguateCountries cfg S = {c})
    \<and> (TzComment tzId \<in> set ls \<longleftrightarrow> card (disambiguateCountries cfg S) \<noteq> 1)"
proof -
  let ?D = "disambiguateCountries cfg S"
  have dist: "distinct (map fst tzToCountry)"
    using tz_loop_distinct[OF _ assms(2)] by simp
  have key: "tzId \<in> set (map fst tzToCountry)"
    using assms(3) map_of_keys[of tzToCountry tzId] by simp
  have d1: "card S \<noteq> 2 \<longrightarrow> ?D = S"
    by (simp add: disambiguateCountries_def)
  have d2: "card S = 2 \<longrightarrow> find (\<lambda>m. fst m \<in> S \<and> snd m \<in> S) pairs = None \<longrightarrow> ?D = S"
    by (simp add: disambiguateCountries_def disambiguate_loop_find assms(5))
  have d3: "\<forall>m. card S = 2 \<longrightarrow> find (\<lambda>m. fst m \<in> S \<and> snd m \<in> S) pairs = Some m
          \<longrightarrow> ?D = S - {snd m}"
    by (simp add: disambiguateCountries_def disambiguate_loop_find assms(5))
  have ids: "map tz_line_id ls = sort (map fst tzToCountry)"
    using assms(4) by (simp add: tz_lines_ids)
  have "distinct (map tz_line_id ls)" "tzId \<in> set (map tz_line_id ls)"
    using ids dist key by simp_all
  then have "length (filter (\<lambda>i. i = tzId) (map tz_line_id ls)) = 1"
    by (rule distinct_filter_eq_one)
  then have one: "length (filter (\<lambda>l. tz_line_id l = tzId) ls) = 1"
    by (simp add: filter_map comp_def)
  define line where "line = (\<lambda>k.
            if card (disambiguateCountries cfg (the (map_of tzToCountry k))) = 1
            then TzRow k (hd (enum (disambiguateCountries cfg (the (map_of tzToCountry k)))))
            else TzComment k)"
  have set_ls: "set ls = line ` set (map fst tzToCountry)"
    using assms(4) by (simp add: tz_lines_def line_def)
  have line_id: "tz_line_id (line k) = k" for k by (simp add: line_def)
  have the_S: "the (map_of tzToCountry tzId) = S" using assms(3) by simp
  have line_tzId: "line tzId = (if card ?D = 1 then TzRow tzId (hd (enum ?D)) else TzComment tzId)"
    by (simp add: line_def the_S)
  have mem: "l \<in> set ls \<longleftrightarrow> l = line tzId" if "tz_line_id l = tzId" for l
  proof
    assume "l \<in> set ls"
    then obtain k where k: "l = line k" unfolding set_ls by blast
    then have "tz_line_id l = k" using line_id[of k] by simp
    with k that show "l = line tzId" by simp
  next
    assume "l = line tzId"
    then show "l \<in> set ls" unfolding set_ls using key by blast
  qed
  have hd1: "?D = {c} \<Longrightarrow> hd (enum ?D) = c" for c
    using valid_enum_hd[OF assms(1), of c] by simp
  have row: "\<forall>c. TzRow tzId c \<in> set ls \<longleftrightarrow> ?D = {c}"
  proof
    fix c
    show "TzRow tzId c \<in> set ls \<longleftrightarrow> ?D = {c}"
    proof
      assume "TzRow tzId c \<in> set ls"
      then have eq: "TzRow tzId c = line tzId" using mem[of "TzRow tzId c"] by simp
      then have c1: "card ?D = 1" unfolding line_tzId by (auto split: if_splits)
      then obtain c' where c': "?D = {c'}" by (auto simp: card_1_singleton_iff)
      from eq c1 have "c = hd (enum ?D)" unfolding line_tzId by simp
      with c' hd1[OF c'] show "?D = {c}" by simp
    next
      assume c: "?D = {c}"
      then have "line tzId = TzRow tzId c" unfolding line_tzId using hd1[OF c] by simp
      then show "TzRow tzId c \<in> set ls" using mem[of "TzRow tzId c"] by simp
    qed
  qed
  have comment: "TzComment tzId \<in> set ls \<longleftrightarrow> card ?D \<noteq> 1"
  proof
    assume "TzComment tzId \<in> set ls"
    then have "TzComment tzId = line tzId" using mem[of "TzComment tzId"] by simp
    then show "card ?D \<noteq> 1" unfolding line_tzId by (auto split: if_splits)
  next
    assume "card ?D \<noteq> 1"
    then have "line tzId = TzComment tzId" unfolding line_tzId by simp
    then show "TzComment tzId \<in> set ls" using mem[of "TzComment tzId"] by simp
  qed
  from d1 d2 d3 one row comment show ?thesis by blast
qed

theorem C8_disambiguation_and_rows_witness:
  "valid_enum enum_asc
   \<and> tz_loop cells_engine ex_cfg (countryLayer ex_ctx) (tzLayer ex_ctx) []
       = Inr [(''Europe/Berlin'', {''DE''}), (''Europe/Busingen'', {''DE''}),
              (''America/New_York'', {''US''}), (''America/Chicago'', {''US''}),
              (''Europe/Zurich'', {''CH'', ''LI''})]
   \<and> card {''CH'', ''LI''} = 2
   \<and> find (\<lambda>m. fst m \<in> {''CH'', ''LI''} \<and> snd m \<in> {''CH'', ''LI''})
        (ISO3166_1_DISAMBIGUATION_MAP ex_cfg) = Some (''CH'', ''LI'')
   \<and> disambiguateCountries ex_cfg {''CH'', ''LI''} = {''CH''}
   \<and> TzRow ''Europe/Zurich'' ''CH''
       \<in> set (tz_lines enum_asc ex_cfg
                 [(''Europe/Berlin'', {''DE''}), (''Europe/Busingen'', {''DE''}),
                  (''America/New_York'', {''US''}), (''America/Chicago'', {''US''}),
                  (''Europe/Zurich'', {''CH'', ''LI''})])"
proof -
  let ?d = "[(''Europe/Berlin'', {''DE''}), (''Europe/Busingen'', {''DE''}),
              (''America/New_York'', {''US''}), (''America/Chicago'', {''US''}),
              (''Europe/Zurich'', {''CH'', ''LI''})]"
  have look: "map_of ?d ''Europe/Zurich'' = Some {''CH'', ''LI''}" by simp
  have c2: "card {''CH'', ''LI''} = 2" by simp
  have f: "find (\<lambda>m. fst m \<in> {''CH'', ''LI''} \<and> snd m \<in> {''CH'', ''LI''})
        (ISO3166_1_DISAMBIGUATION_MAP ex_cfg) = Some (''CH'', ''LI'')"
    by (simp add: ex_cfg_def)
  note inst = C8_disambiguation_and_rows[OF valid_enum_asc ex_tz_loop look refl refl]
  from inst c2 f have "disambiguateCountries ex_cfg {''CH'', ''LI''} = {''CH'', ''LI''} - {snd (''CH'', ''LI'')}"
    by blast
  then have d: "disambiguateCountries ex_cfg {''CH'', ''LI''} = {''CH''}" by auto
  from inst d have "TzRow ''Europe/Zurich'' ''CH'' \<in> set (tz_lines enum_asc ex_cfg ?d)" by blast
  with valid_enum_asc ex_tz_loop c2 f d show ?thesis by blast
qed

subsection \<open>The country pass\<close>

lemma dual_threshold_Inr:
  "dual_threshold a y z = Inr ok \<longleftrightarrow>
     y \<noteq> 0 \<and> z \<noteq> 0 \<and> ok = (a / y > 1 / 100 \<or> a / z > 1 / 10)"
  by (auto simp: dual_threshold_def float_div_def)

lemma country_tz_loop_result:
  "country_tz_loop eng cfg g (area eng g) tzs acc = Inr r \<Longrightarrow>
     r = acc \<union> set (map (\<lambda>tz. normalizedTz cfg (attribute tz))
                       (filter (\<lambda>tz. tz_matches_region eng tz g) tzs))"
proof (induction tzs arbitrary: acc)
  case Nil then show ?case by simp
next
  case (Cons tz rest)
  show ?case
  proof (cases "intersects eng (geometry tz) g")
    case False
    with Cons.prems have "country_tz_loop eng cfg g (area eng g) rest acc = Inr r" by simp
    from Cons.IH[OF this] False show ?thesis by (simp add: tz_matches_region_def)
  next
    case True
    with Cons.prems obtain ok where
      ok: "dual_threshold (area eng (intersection eng (geometry tz) g)) (area eng (geometry tz)) (area eng g) = Inr ok"
      and rest: "country_tz_loop eng cfg g (area eng g) rest
                   (if ok then insert (normalizedTz cfg (attribute tz)) acc else acc) = Inr r"
      by (auto split: sum.splits)
    from ok True have m: "tz_matches_region eng tz g = ok"
      by (auto simp: dual_threshold_Inr tz_matches_region_def)
    from Cons.IH[OF rest] m show ?thesis by auto
  qed
qed

lemma qualifying_tzs_Nil: "qualifying_tzs eng cfg tzs [] code = {}"
  by (simp add: qualifying_tzs_def)

lemma qualifying_tzs_Cons:
  "qualifying_tzs eng cfg tzs (r # rs) code =
     (if attribute r = code
      then set (map (\<lambda>tz. normalizedTz cfg (attribute tz))
                    (filter (\<lambda>tz. tz_matches_region eng tz (geometry r)) tzs))
      else {}) \<union> qualifying_tzs eng cfg tzs rs code"
  by (simp add: qualifying_tzs_def)

lemma country_loop_result:
  "country_loop eng cfg tzs cs d0 = Inr d \<Longrightarrow>
     map_of d code =
       (if code \<in> attribute ` set cs \<or> map_of d0 code \<noteq> None
        then Some ((case map_of d0 code of None \<Rightarrow> {} | Some s \<Rightarrow> s)
                   \<union> qualifying_tzs eng cfg tzs cs code)
        else None)"
proof (induction cs arbitrary: d0)
  case Nil then show ?case by (auto simp: qualifying_tzs_Nil)
next
  case (Cons c rest)
  define d1 where "d1 = (if map_of d0 (attribute c) = None
                          then AList.update (attribute c) {} d0 else d0)"
  define base where "base = (case map_of d0 (attribute c) of None \<Rightarrow> {} | Some s \<Rightarrow> s)"
  have the1: "the (map_of d1 (attribute c)) = base"
    by (auto simp: d1_def base_def map_of_update_if)
  from Cons.prems obtain s where
    s: "country_tz_loop eng cfg (geometry c) (area eng (geometry c)) tzs base = Inr s"
    and rest: "country_loop eng cfg tzs rest (AList.update (attribute c) s d1) = Inr d"
    using the1 by (auto simp: Let_def d1_def[symmetric] split: sum.splits)
  have s_eq: "s = base \<union> set (map (\<lambda>tz. normalizedTz cfg (attribute tz))
                       (filter (\<lambda>tz. tz_matches_region eng tz (geometry c)) tzs))"
    using country_tz_loop_result[OF s] .
  have look: "map_of (AList.update (attribute c) s d1) code
      = (if code = attribute c then Some s else map_of d0 code)"
    by (auto simp: map_of_update_if d1_def)
  note ih = Cons.IH[OF rest, of ] 
  show ?case
  proof (cases "code = attribute c")
    case True
    have "map_of d code = Some (s \<union> qualifying_tzs eng cfg tzs rest code)"
      unfolding ih look using True by simp
    then show ?thesis
      unfolding qualifying_tzs_Cons s_eq base_def using True
      by (auto split: option.splits)
  next
    case False
    have "map_of d code =
       (if code \<in> attribute ` set rest \<or> map_of d0 code \<noteq> None
        then Some ((case map_of d0 code of None \<Rightarrow> {} | Some s \<Rightarrow> s)
                   \<union> qualifying_tzs eng cfg tzs rest code)
        else None)"
      unfolding ih look using False by simp
    then show ?thesis
      unfolding qualifying_tzs_Cons using False by auto
  qed
qed

lemma country_loop_keys:
  "country_loop eng cfg tzs cs d0 = Inr d \<Longrightarrow> distinct (map fst d0) \<Longrightarrow>
     distinct (map fst d) \<and> set (map fst d) = set (map fst d0) \<union> attribute ` set cs"
proof (induction cs arbitrary: d0)
  case Nil then show ?case by simp
next
  case (Cons c rest)
  define d1 where "d1 = (if map_of d0 (attribute c) = None
                          then AList.update (attribute c) {} d0 else d0)"
  from Cons.prems(1) obtain s where
    rest: "country_loop eng cfg tzs rest (AList.update (attribute c) s d1) = Inr d"
    by (auto simp: Let_def d1_def[symmetric] split: sum.splits)
  have dd: "distinct (map fst (AList.update (attribute c) s d1))"
    using Cons.prems(2) by (simp add: d1_def distinct_update del: update_last)
  have keys: "set (map fst (AList.update (attribute c) s d1)) = insert (attribute c) (set (map fst d0))"
    unfolding keys_update d1_def by (auto simp: keys_update simp del: set_map)
  from Cons.IH[OF rest dd] keys show ?case by auto
qed

lemma concat_map_if:
  "concat (map (\<lambda>k. if P k then [g k] else []) xs) = map g (filter P xs)"
  by (induction xs) auto

lemma country_rows_alt:
  "country_rows enum d =
     map (\<lambda>k. (k, hd (enum (the (map_of d k)))))
         (filter (\<lambda>k. card (the (map_of d k)) = 1) (sort (map fst d)))"
  unfolding country_rows_def by (rule concat_map_if)

lemma country_rows_keys:
  "map fst (country_rows enum d) = filter (\<lambda>k. card (the (map_of d k)) = 1) (sort (map fst d))"
  by (simp add: country_rows_alt comp_def)

lemma country_rows_filter:
  assumes "distinct (map fst d)" and "code \<in> set (map fst d)"
  shows "filter (\<lambda>r. fst r = code) (country_rows enum d) =
     (if card (the (map_of d code)) = 1 then [(code, hd (enum (the (map_of d code))))] else [])"
proof -
  let ?P = "\<lambda>k. card (the (map_of d k)) = 1"
  let ?g = "\<lambda>k. (k, hd (enum (the (map_of d k))))"
  have "filter (\<lambda>r. fst r = code) (country_rows enum d)
      = map ?g (filter (\<lambda>k. k = code) (filter ?P (sort (map fst d))))"
    by (simp add: country_rows_alt filter_map comp_def)
  also have "filter (\<lambda>k. k = code) (filter ?P (sort (map fst d)))
      = filter ?P (filter (\<lambda>k. k = code) (sort (map fst d)))"
    by (simp add: conj_commute)
  also have "filter (\<lambda>k. k = code) (sort (map fst d)) = [code]"
  proof -
    have "distinct (sort (map fst d))" "code \<in> set (sort (map fst d))"
      using assms by simp_all
    then have "length (filter (\<lambda>k. k = code) (sort (map fst d))) = 1"
      by (rule distinct_filter_eq_one)
    moreover have "\<forall>x \<in> set (filter (\<lambda>k. k = code) (sort (map fst d))). x = code" by simp
    ultimately show ?thesis
      by (cases "filter (\<lambda>k. k = code) (sort (map fst d))") auto
  qed
  finally show ?thesis by simp
qed

text \<open>
  C5. For every country code of the country layer, with \<open>Q\<close> its set of qualifying
  normalized timezone identifiers: if \<open>Q = {t}\<close> the country table has exactly one row for
  the code, mapping it to \<open>t\<close>; if \<open>Q\<close> has zero or more than one element it has no row for
  the code; the rows are sorted by country code (and no code occurs twice).
\<close>

theorem C5_country_rows:
  assumes "valid_enum enum"
    and "country_loop eng cfg tzs countries [] = Inr countryToTz"
    and "rows = country_rows enum countryToTz"
    and "code \<in> attribute ` set countries"
    and "Q = qualifying_tzs eng cfg tzs countries code"
  shows "(\<forall>t. Q = {t} \<longrightarrow> filter (\<lambda>r. fst r = code) rows = [(code, t)])
    \<and> (card Q \<noteq> 1 \<longrightarrow> filter (\<lambda>r. fst r = code) rows = [])
    \<and> sorted (map fst rows) \<and> distinct (map fst rows)"
proof -
  have keys: "distinct (map fst countryToTz)" "set (map fst countryToTz) = attribute ` set countries"
    using country_loop_keys[OF assms(2)] by simp_all
  have look: "the (map_of countryToTz code) = Q"
    using country_loop_result[OF assms(2), of code] assms(4,5) by simp
  have f: "filter (\<lambda>r. fst r = code) rows =
     (if card Q = 1 then [(code, hd (enum Q))] else [])"
    using country_rows_filter[OF keys(1), of code enum] keys(2) assms(3,4) look by simp
  have one: "\<forall>t. Q = {t} \<longrightarrow> filter (\<lambda>r. fst r = code) rows = [(code, t)]"
    using f valid_enum_hd[OF assms(1)] by auto
  have none: "card Q \<noteq> 1 \<longrightarrow> filter (\<lambda>r. fst r = code) rows = []"
    using f by simp
  have "sorted (map fst rows)" "distinct (map fst rows)"
    using keys(1) by (simp_all add: assms(3) country_rows_keys sorted_wrt_filter)
  with one none show ?thesis by blast
qed

lemma ex_country_loop:
  "country_loop cells_engine ex_cfg (tzLayer ex_ctx) (countryLayer ex_ctx) []
     = Inr [(''US'', {''America/New_York'', ''America/Chicago''}), (''DE'', {''Europe/Berlin''}),
            (''CH'', {''Europe/Zurich''}), (''LI'', {''Europe/Zurich''})]"
  by code_simp

theorem C5_country_rows_witness:
  "valid_enum enum_asc
   \<and> country_loop cells_engine ex_cfg (tzLayer ex_ctx) (countryLayer ex_ctx) []
     = Inr [(''US'', {''America/New_York'', ''America/Chicago''}), (''DE'', {''Europe/Berlin''}),
            (''CH'', {''Europe/Zurich''}), (''LI'', {''Europe/Zurich''})]
   \<and> ''DE'' \<in> attribute ` set (countryLayer ex_ctx)
   \<and> qualifying_tzs cells_engine ex_cfg (tzLayer ex_ctx) (countryLayer ex_ctx) ''DE''
       = {''Europe/Berlin''}
   \<and> filter (\<lambda>r. fst r = ''DE'')
        (country_rows enum_asc
           [(''US'', {''America/New_York'', ''America/Chicago''}), (''DE'', {''Europe/Berlin''}),
            (''CH'', {''Europe/Zurich''}), (''LI'', {''Europe/Zurich''})])
       = [(''DE'', ''Europe/Berlin'')]"
proof -
  have mem: "''DE'' \<in> attribute ` set (countryLayer ex_ctx)"
    by (simp add: ex_ctx_def feat_def)
  have q: "qualifying_tzs cells_engine ex_cfg (tzLayer ex_ctx) (countryLayer ex_ctx) ''DE''
       = {''Europe/Berlin''}"
    by code_simp
  note inst = C5_country_rows[OF valid_enum_asc ex_country_loop refl mem refl]
  from inst q have "filter (\<lambda>r. fst r = ''DE'')
        (country_rows enum_asc
           [(''US'', {''America/New_York'', ''America/Chicago''}), (''DE'', {''Europe/Berlin''}),
            (''CH'', {''Europe/Zurich''}), (''LI'', {''Europe/Zurich''})])
       = [(''DE'', ''Europe/Berlin'')]" by blast
  with valid_enum_asc ex_country_loop mem q show ?thesis by blast
qed

subsection \<open>The subdivision pass\<close>

lemma add_area_distinct: "distinct (map fst m) \<Longrightarrow> distinct (map fst (add_area t a m))"
  by (simp add: add_area_def distinct_update split: option.splits)

lemma add_area_lookup:
  "map_of (add_area t a m) t' =
     (if t' = t then Some ((case map_of m t of None \<Rightarrow> 0 | Some b \<Rightarrow> b) + a) else map_of m t')"
  by (simp add: add_area_def map_of_update_if split: option.splits)

lemma subdiv_tz_loop_result:
  assumes "subdiv_tz_loop eng cfg g (area eng g) tzs m0 = Inr m" and "distinct (map fst m0)"
  shows "distinct (map fst m) \<and>
     (\<forall>t. map_of m t =
        (if t \<in> set (map (\<lambda>tz. normalizedTz cfg (attribute tz))
                         (filter (\<lambda>tz. tz_matches_region eng tz g) tzs))
            \<or> map_of m0 t \<noteq> None
         then Some ((case map_of m0 t of None \<Rightarrow> 0 | Some b \<Rightarrow> b)
                    + sum_list (map (\<lambda>tz. area eng (intersection eng (geometry tz) g))
                         (filter (\<lambda>tz. tz_matches_region eng tz g
                                       \<and> normalizedTz cfg (attribute tz) = t) tzs)))
         else None))"
  using assms
proof (induction tzs arbitrary: m0)
  case Nil then show ?case by (auto split: option.splits)
next
  case (Cons tz rest)
  show ?case
  proof (cases "intersects eng (geometry tz) g")
    case False
    with Cons.prems have "subdiv_tz_loop eng cfg g (area eng g) rest m0 = Inr m" by simp
    from Cons.IH[OF this Cons.prems(2)] False show ?thesis
      by (simp add: tz_matches_region_def)
  next
    case True
    with Cons.prems(1) obtain ok where
      ok: "dual_threshold (area eng (intersection eng (geometry tz) g)) (area eng (geometry tz)) (area eng g) = Inr ok"
      and rest: "subdiv_tz_loop eng cfg g (area eng g) rest
                   (if ok then add_area (normalizedTz cfg (attribute tz))
                                 (area eng (intersection eng (geometry tz) g)) m0 else m0) = Inr m"
      by (auto split: sum.splits)
    from ok True have mt: "tz_matches_region eng tz g = ok"
      by (auto simp: dual_threshold_Inr tz_matches_region_def)
    show ?thesis
    proof (cases ok)
      case False
      with rest have "subdiv_tz_loop eng cfg g (area eng g) rest m0 = Inr m" by simp
      from Cons.IH[OF this Cons.prems(2)] mt False show ?thesis by simp
    next
      case True
      let ?m1 = "add_area (normalizedTz cfg (attribute tz)) (area eng (intersection eng (geometry tz) g)) m0"
      from rest True have r: "subdiv_tz_loop eng cfg g (area eng g) rest ?m1 = Inr m" by simp
      have d1: "distinct (map fst ?m1)" using Cons.prems(2) by (rule add_area_distinct)
      note ih = Cons.IH[OF r d1]
      from ih have dm: "distinct (map fst m)" by blast
      from ih mt True show ?thesis
        by (auto simp: add_area_lookup split: option.splits)
    qed
  qed
qed

lemma qualifying_tzs_absent:
  "code \<notin> attribute ` set regions \<Longrightarrow> qualifying_tzs eng cfg tzs regions code = {}"
  by (induction regions) (auto simp: qualifying_tzs_Nil qualifying_tzs_Cons)

lemma region_tz_area_Nil: "region_tz_area eng cfg tzs [] code t = 0"
  by (simp add: region_tz_area_def)

lemma region_tz_area_Cons:
  "region_tz_area eng cfg tzs (r # rs) code t =
     (if attribute r = code
      then sum_list (map (\<lambda>tz. area eng (intersection eng (geometry tz) (geometry r)))
                         (filter (\<lambda>tz. tz_matches_region eng tz (geometry r)
                                       \<and> normalizedTz cfg (attribute tz) = t) tzs))
      else 0) + region_tz_area eng cfg tzs rs code t"
  by (simp add: region_tz_area_def)

lemma entry_update: "entry (AList.update k v d) k' = (if k' = k then v else entry d k')"
  by (simp add: entry_def map_of_update_if)

lemma subdiv_loop_result:
  assumes "subdiv_loop eng cfg c2t tzs subs d0 = Inr d"
    and "distinct (map fst (entry d0 code))"
  shows "if multi_tz_country c2t code then
           (map_of d code \<noteq> None \<longleftrightarrow> code \<in> attribute ` set subs \<or> map_of d0 code \<noteq> None)
           \<and> distinct (map fst (entry d code))
           \<and> (\<forall>t. map_of (entry d code) t =
                (if t \<in> qualifying_tzs eng cfg tzs subs code \<or> map_of (entry d0 code) t \<noteq> None
                 then Some ((case map_of (entry d0 code) t of None \<Rightarrow> 0 | Some b \<Rightarrow> b)
                            + region_tz_area eng cfg tzs subs code t)
                 else None))
         else map_of d code = map_of d0 code"
  using assms
proof (induction subs arbitrary: d0)
  case Nil
  then show ?case
    by (auto simp: qualifying_tzs_Nil region_tz_area_Nil split: option.splits)
next
  case (Cons s rest)
  obtain ctzs where ctzs: "map_of c2t (take 2 (attribute s)) = Some ctzs"
    using Cons.prems(1) by (auto simp: Let_def split: option.splits)
  show ?case
  proof (cases "card ctzs \<le> 1")
    case True
    with Cons.prems(1) ctzs have r: "subdiv_loop eng cfg c2t tzs rest d0 = Inr d"
      by (simp add: Let_def)
    note ih = Cons.IH[OF r Cons.prems(2)]
    have nm: "\<not> multi_tz_country c2t (attribute s)"
      using True ctzs by (simp add: multi_tz_country_def)
    show ?thesis
    proof (cases "attribute s = code")
      case True
      with nm ih show ?thesis by simp
    next
      case False
      with ih show ?thesis
        by (auto simp: qualifying_tzs_Cons region_tz_area_Cons)
    qed
  next
    case False
    then have multi_s: "multi_tz_country c2t (attribute s)"
      using ctzs by (simp add: multi_tz_country_def)
    define d1 where "d1 = (if map_of d0 (attribute s) = None
                           then AList.update (attribute s) [] d0 else d0)"
    have e1: "the (map_of d1 (attribute s)) = entry d0 (attribute s)"
      by (auto simp: d1_def entry_def map_of_update_if)
    from Cons.prems(1) ctzs False obtain m where
      m: "subdiv_tz_loop eng cfg (geometry s) (area eng (geometry s)) tzs (entry d0 (attribute s)) = Inr m"
      and r: "subdiv_loop eng cfg c2t tzs rest (AList.update (attribute s) m d1) = Inr d"
      using e1 by (auto simp: Let_def d1_def[symmetric] split: sum.splits)
    let ?d2 = "AList.update (attribute s) m d1"
    have look2: "map_of ?d2 k = (if k = attribute s then Some m else map_of d0 k)" for k
      by (auto simp: map_of_update_if d1_def)
    have entry2: "entry ?d2 k = (if k = attribute s then m else entry d0 k)" for k
      by (simp add: entry_def look2)
    show ?thesis
    proof (cases "attribute s = code")
      case False
      have dd2: "distinct (map fst (entry ?d2 code))" using Cons.prems(2) False by (simp add: entry2)
      have ne: "(code = attribute s) = False" using False by auto
      note ih = Cons.IH[OF r dd2, unfolded look2 entry2 ne if_False]
      from ih False show ?thesis
        by (cases "multi_tz_country c2t code") (simp_all add: qualifying_tzs_Cons region_tz_area_Cons)
    next
      case True
      then have code: "code = attribute s" by simp
      have dm0: "distinct (map fst (entry d0 (attribute s)))" using Cons.prems(2) True by simp
      note tl = subdiv_tz_loop_result[OF m dm0]
      have dd2: "distinct (map fst (entry ?d2 (attribute s)))" using tl by (simp add: entry2)
      have multi: "multi_tz_country c2t (attribute s) = True" using multi_s by simp
      note ih = Cons.IH[OF r, unfolded code, OF dd2, unfolded look2 entry2 multi if_True, simplified]
      from ih have k: "map_of d (attribute s) \<noteq> None" by simp
      from ih have dd: "distinct (map fst (entry d (attribute s)))" by simp
      have vals: "map_of (entry d (attribute s)) t =
                (if t \<in> qualifying_tzs eng cfg tzs (s # rest) (attribute s)
                    \<or> map_of (entry d0 (attribute s)) t \<noteq> None
                 then Some ((case map_of (entry d0 (attribute s)) t of None \<Rightarrow> 0 | Some b \<Rightarrow> b)
                            + region_tz_area eng cfg tzs (s # rest) (attribute s) t)
                 else None)" for t
      proof -
        let ?N = "set (map (\<lambda>tz. normalizedTz cfg (attribute tz))
                         (filter (\<lambda>tz. tz_matches_region eng tz (geometry s)) tzs))"
        let ?A = "sum_list (map (\<lambda>tz. area eng (intersection eng (geometry tz) (geometry s)))
                         (filter (\<lambda>tz. tz_matches_region eng tz (geometry s)
                                       \<and> normalizedTz cfg (attribute tz) = t) tzs))"
        have mt: "map_of m t = (if t \<in> ?N \<or> map_of (entry d0 (attribute s)) t \<noteq> None
                   then Some ((case map_of (entry d0 (attribute s)) t of None \<Rightarrow> 0 | Some b \<Rightarrow> b) + ?A)
                   else None)"
          using tl by blast
        have zero: "t \<notin> ?N \<Longrightarrow> ?A = 0"
        proof -
          assume "t \<notin> ?N"
          then have "filter (\<lambda>tz. tz_matches_region eng tz (geometry s)
                                       \<and> normalizedTz cfg (attribute tz) = t) tzs = []"
            by (auto simp: filter_empty_conv)
          then show "?A = 0" by simp
        qed
        have iht: "map_of (entry d (attribute s)) t =
                (if t \<in> qualifying_tzs eng cfg tzs rest (attribute s) \<or> map_of m t \<noteq> None
                 then Some ((case map_of m t of None \<Rightarrow> 0 | Some b \<Rightarrow> b)
                            + region_tz_area eng cfg tzs rest (attribute s) t)
                 else None)"
          using ih by (simp cong: if_cong)
        have q: "qualifying_tzs eng cfg tzs (s # rest) (attribute s)
                   = ?N \<union> qualifying_tzs eng cfg tzs rest (attribute s)"
          by (simp add: qualifying_tzs_Cons)
        have a: "region_tz_area eng cfg tzs (s # rest) (attribute s) t
                   = ?A + region_tz_area eng cfg tzs rest (attribute s) t"
          by (simp add: region_tz_area_Cons)
        show ?thesis
          unfolding iht q a mt using zero by (auto split: option.splits)
      qed
      from k dd vals multi_s show ?thesis unfolding code by simp
    qed
  qed
qed

lemma subdiv_loop_distinct:
  "subdiv_loop eng cfg c2t tzs subs d0 = Inr d \<Longrightarrow> distinct (map fst d0) \<Longrightarrow> distinct (map fst d)"
proof (induction subs arbitrary: d0)
  case Nil then show ?case by simp
next
  case (Cons s rest)
  obtain ctzs where ctzs: "map_of c2t (take 2 (attribute s)) = Some ctzs"
    using Cons.prems(1) by (auto simp: Let_def split: option.splits)
  show ?case
  proof (cases "card ctzs \<le> 1")
    case True
    with Cons.prems(1) ctzs have "subdiv_loop eng cfg c2t tzs rest d0 = Inr d"
      by (simp add: Let_def)
    from Cons.IH[OF this Cons.prems(2)] show ?thesis .
  next
    case False
    define d1 where "d1 = (if map_of d0 (attribute s) = None
                           then AList.update (attribute s) [] d0 else d0)"
    from Cons.prems(1) ctzs False obtain m where
      r: "subdiv_loop eng cfg c2t tzs rest (AList.update (attribute s) m d1) = Inr d"
      by (auto simp: Let_def d1_def[symmetric] split: sum.splits)
    have "distinct (map fst (AList.update (attribute s) m d1))"
      using Cons.prems(2) by (simp add: d1_def distinct_update del: update_last)
    from Cons.IH[OF r this] show ?thesis .
  qed
qed

subsection \<open>The subdivision table\<close>

lemma filter_concat_blocks:
  assumes "distinct ks" and "\<And>k l. l \<in> set (block k) \<Longrightarrow> key l = k"
  shows "filter (\<lambda>l. key l = code) (concat (map block ks)) = (if code \<in> set ks then block code else [])"
  using assms(1)
proof (induction ks)
  case Nil then show ?case by simp
next
  case (Cons k ks)
  have same: "filter (\<lambda>l. key l = code) (block k) = (if k = code then block k else [])"
    using assms(2)[of _ k] by (auto simp: filter_empty_conv intro: filter_True)
  from Cons show ?case by (auto simp: same)
qed

lemma sorted_concat_blocks:
  fixes ks :: "'k::linorder list"
  assumes "sorted ks" and "\<And>k l. l \<in> set (block k) \<Longrightarrow> key l = k"
  shows "sorted (map key (concat (map block ks)))"
  using assms(1)
proof (induction ks)
  case Nil then show ?case by simp
next
  case (Cons k ks)
  have blk: "\<forall>x \<in> set (block k). key x = k" using assms(2) by blast
  have "sorted (map key (block k))"
  proof -
    have "map key (block k) = replicate (length (block k)) k"
      using blk by (simp add: map_replicate_const[symmetric] cong: map_cong)
    then show ?thesis by (simp add: sorted_replicate)
  qed
  moreover have "\<forall>x \<in> set (block k). \<forall>y \<in> set (concat (map block ks)). key x \<le> key y"
    using Cons.prems assms(2) by fastforce
  ultimately show ?case using Cons by (auto simp: sorted_append)
qed

lemma subdiv_lines_blocks: "subdiv_lines d = concat (map (subdiv_block d) (sort (map fst d)))"
  unfolding subdiv_lines_def subdiv_block_def[abs_def] ..

lemma subdiv_block_code: "l \<in> set (subdiv_block d k) \<Longrightarrow> subdiv_line_code l = k"
  by (auto simp: subdiv_block_def split: if_splits)

lemma subdiv_lines_filter:
  assumes "distinct (map fst d)"
  shows "filter (\<lambda>l. subdiv_line_code l = code) (subdiv_lines d)
           = (if code \<in> set (map fst d) then subdiv_block d code else [])"
proof -
  have "distinct (sort (map fst d))" using assms by simp
  from filter_concat_blocks[OF this, of "subdiv_block d" subdiv_line_code code]
  show ?thesis by (simp add: subdiv_lines_blocks subdiv_block_code)
qed

lemma subdiv_lines_sorted: "sorted (map subdiv_line_code (subdiv_lines d))"
  unfolding subdiv_lines_blocks
  by (rule sorted_concat_blocks) (simp_all add: subdiv_block_code)

lemma row_tzs_filter:
  "subdiv_row_tzs code ls = subdiv_row_tzs code (filter (\<lambda>l. subdiv_line_code l = code) ls)"
proof (induction ls)
  case Nil then show ?case by simp
next
  case (Cons l ls) then show ?case by (cases l) (auto simp: subdiv_row_tzs_def)
qed

lemma row_tzs_block: "subdiv_row_tzs code (subdiv_block d code) = tzs_by_area (the (map_of d code))"
proof -
  have "concat (map (row_tz_of code) (map (SubdivRow code) xs)) = xs" for xs
    by (induction xs) auto
  then show ?thesis by (simp add: subdiv_row_tzs_def subdiv_block_def)
qed

lemma tzs_by_area_props:
  "set (tzs_by_area m) = set (map fst m)"
  "distinct (map fst m) \<Longrightarrow> distinct (tzs_by_area m)"
  "sorted (map (\<lambda>x. - the (map_of m x)) (tzs_by_area m))"
  by (simp_all add: tzs_by_area_def)

lemma run_region_Inr:
  "snd (RegionToTimezoneMapTask_run enum eng cfg ctx) = Inr (c2t, s2t) \<longleftrightarrow>
     country_loop eng cfg (tzLayer ctx) (countryLayer ctx) [] = Inr c2t
     \<and> subdiv_loop eng cfg c2t (tzLayer ctx) (subdivLayer ctx) [] = Inr s2t"
  by (auto simp: RegionToTimezoneMapTask_run_def split: sum.splits)

lemma run_region_files:
  "snd (RegionToTimezoneMapTask_run enum eng cfg ctx) = Inr (c2t, s2t) \<Longrightarrow>
     fst (RegionToTimezoneMapTask_run enum eng cfg ctx) =
       [(''../../data/country_timezone_map.cpp'', country_file (country_rows enum c2t)),
        (''../../data/subdivision_timezone_map.cpp'', subdiv_file (subdiv_lines s2t))]"
  by (auto simp: RegionToTimezoneMapTask_run_def split: sum.splits)

lemma multi_tz_country_iff:
  assumes "country_loop eng cfg tzs countries [] = Inr c2t"
  shows "multi_tz_country c2t code
           \<longleftrightarrow> card (qualifying_tzs eng cfg tzs countries (take 2 code)) > 1"
proof (cases "take 2 code \<in> attribute ` set countries")
  case True
  then show ?thesis
    using country_loop_result[OF assms, of "take 2 code"] by (simp add: multi_tz_country_def)
next
  case False
  then have "map_of c2t (take 2 code) = None"
    using country_loop_result[OF assms, of "take 2 code"] by simp
  with False show ?thesis
    by (simp add: multi_tz_country_def qualifying_tzs_absent)
qed

lemma subdiv_pass_multi:
  assumes "subdiv_loop eng cfg c2t tzs subs [] = Inr s2t"
    and "multi_tz_country c2t code" and "code \<in> attribute ` set subs"
  shows "code \<in> set (map fst s2t)"
    and "distinct (map fst (the (map_of s2t code)))"
    and "set (map fst (the (map_of s2t code))) = qualifying_tzs eng cfg tzs subs code"
    and "t \<in> qualifying_tzs eng cfg tzs subs code \<Longrightarrow>
           map_of (the (map_of s2t code)) t = Some (region_tz_area eng cfg tzs subs code t)"
proof -
  have d0: "distinct (map fst (entry [] code :: (string \<times> rat) list))" by (simp add: entry_def)
  note r = subdiv_loop_result[OF assms(1) d0, unfolded eqTrueI[OF assms(2)] if_True]
  from r assms(3) have k: "map_of s2t code \<noteq> None" by simp
  then show "code \<in> set (map fst s2t)" using map_of_keys[of s2t code] by blast
  from k have e: "entry s2t code = the (map_of s2t code)" by (auto simp: entry_def)
  from r show "distinct (map fst (the (map_of s2t code)))" unfolding e by blast
  from r have v: "map_of (the (map_of s2t code)) t =
      (if t \<in> qualifying_tzs eng cfg tzs subs code
       then Some (region_tz_area eng cfg tzs subs code t) else None)" for t
    unfolding e by (simp add: entry_def)
  have "t \<in> set (map fst (the (map_of s2t code))) \<longleftrightarrow> t \<in> qualifying_tzs eng cfg tzs subs code" for t
    using v[of t] map_of_keys[of "the (map_of s2t code)" t] by (auto split: if_splits)
  then show "set (map fst (the (map_of s2t code))) = qualifying_tzs eng cfg tzs subs code" by blast
  show "t \<in> qualifying_tzs eng cfg tzs subs code \<Longrightarrow>
           map_of (the (map_of s2t code)) t = Some (region_tz_area eng cfg tzs subs code t)"
    using v[of t] by simp
qed

lemma subdiv_pass_single:
  assumes "subdiv_loop eng cfg c2t tzs subs [] = Inr s2t" and "\<not> multi_tz_country c2t code"
  shows "code \<notin> set (map fst s2t)"
proof -
  have d0: "distinct (map fst (entry [] code :: (string \<times> rat) list))" by (simp add: entry_def)
  from subdiv_loop_result[OF assms(1) d0] assms(2) have "map_of s2t code = None" by simp
  then show ?thesis using map_of_keys[of s2t code] by simp
qed

text \<open>
  C7. A subdivision code of a multi-timezone country with no qualifying timezone has
  exactly one line in the subdivision table, the comment naming the code (so no data row);
  a subdivision code with at least one qualifying timezone has no comment line.
\<close>

theorem C7_subdiv_placeholder:
  assumes "snd (RegionToTimezoneMapTask_run enum eng cfg ctx) = Inr (countryToTz, subdivToTz)"
    and "ls = subdiv_lines subdivToTz"
    and "code \<in> attribute ` set (subdivLayer ctx)"
  shows "(card (qualifying_tzs eng cfg (tzLayer ctx) (countryLayer ctx) (take 2 code)) > 1
          \<and> qualifying_tzs eng cfg (tzLayer ctx) (subdivLayer ctx) code = {}
          \<longrightarrow> filter (\<lambda>l. subdiv_line_code l = code) ls = [SubdivComment code])
    \<and> (qualifying_tzs eng cfg (tzLayer ctx) (subdivLayer ctx) code \<noteq> {}
          \<longrightarrow> SubdivComment code \<notin> set ls)"
proof -
  let ?Q = "qualifying_tzs eng cfg (tzLayer ctx) (subdivLayer ctx) code"
  from assms(1) have cl: "country_loop eng cfg (tzLayer ctx) (countryLayer ctx) [] = Inr countryToTz"
    and sl: "subdiv_loop eng cfg countryToTz (tzLayer ctx) (subdivLayer ctx) [] = Inr subdivToTz"
    by (simp_all add: run_region_Inr)
  have dist: "distinct (map fst subdivToTz)"
    using subdiv_loop_distinct[OF sl] by simp
  note flt = subdiv_lines_filter[OF dist, of code]
  have part1: "filter (\<lambda>l. subdiv_line_code l = code) ls = [SubdivComment code]"
    if m: "card (qualifying_tzs eng cfg (tzLayer ctx) (countryLayer ctx) (take 2 code)) > 1"
      and q: "?Q = {}"
  proof -
    from m have multi: "multi_tz_country countryToTz code"
      by (simp add: multi_tz_country_iff[OF cl])
    note p = subdiv_pass_multi[OF sl multi assms(3)]
    from p(3) q have "the (map_of subdivToTz code) = []" by simp
    then have "subdiv_block subdivToTz code = [SubdivComment code]"
      by (simp add: subdiv_block_def tzs_by_area_def)
    with flt p(1) show ?thesis by (simp add: assms(2))
  qed
  have part2: "SubdivComment code \<notin> set ls" if q: "?Q \<noteq> {}"
  proof
    assume "SubdivComment code \<in> set ls"
    then have "SubdivComment code \<in> set (filter (\<lambda>l. subdiv_line_code l = code) ls)" by simp
    with flt have key: "code \<in> set (map fst subdivToTz)"
      and blk: "SubdivComment code \<in> set (subdiv_block subdivToTz code)"
      by (auto simp: assms(2) split: if_splits)
    from key have multi: "multi_tz_country countryToTz code"
      using subdiv_pass_single[OF sl] by blast
    note p = subdiv_pass_multi[OF sl multi assms(3)]
    from blk have "the (map_of subdivToTz code) = []"
      by (auto simp: subdiv_block_def split: if_splits)
    with p(3) q show False by simp
  qed
  from part1 part2 show ?thesis by blast
qed

lemma ex_subdiv_loop:
  "subdiv_loop cells_engine ex_cfg
     [(''US'', {''America/New_York'', ''America/Chicago''}), (''DE'', {''Europe/Berlin''}),
      (''CH'', {''Europe/Zurich''}), (''LI'', {''Europe/Zurich''})]
     (tzLayer ex_ctx) (subdivLayer ex_ctx) []
     = Inr [(''US-NY'', [(''America/New_York'', 2)]),
            (''US-IL'', [(''America/New_York'', 1), (''America/Chicago'', 2)]),
            (''US-AK'', [])]"
  by code_simp

lemma ex_region_run:
  "snd (RegionToTimezoneMapTask_run enum_asc cells_engine ex_cfg ex_ctx)
     = Inr ([(''US'', {''America/New_York'', ''America/Chicago''}), (''DE'', {''Europe/Berlin''}),
             (''CH'', {''Europe/Zurich''}), (''LI'', {''Europe/Zurich''})],
            [(''US-NY'', [(''America/New_York'', 2)]),
             (''US-IL'', [(''America/New_York'', 1), (''America/Chicago'', 2)]),
             (''US-AK'', [])])"
  unfolding run_region_Inr using ex_country_loop ex_subdiv_loop by simp

theorem C7_subdiv_placeholder_witness:
  "snd (RegionToTimezoneMapTask_run enum_asc cells_engine ex_cfg ex_ctx)
     = Inr ([(''US'', {''America/New_York'', ''America/Chicago''}), (''DE'', {''Europe/Berlin''}),
             (''CH'', {''Europe/Zurich''}), (''LI'', {''Europe/Zurich''})],
            [(''US-NY'', [(''America/New_York'', 2)]),
             (''US-IL'', [(''America/New_York'', 1), (''America/Chicago'', 2)]),
             (''US-AK'', [])])
   \<and> ''US-AK'' \<in> attribute ` set (subdivLayer ex_ctx)
   \<and> card (qualifying_tzs cells_engine ex_cfg (tzLayer ex_ctx) (countryLayer ex_ctx) (take 2 ''US-AK'')) > 1
   \<and> qualifying_tzs cells_engine ex_cfg (tzLayer ex_ctx) (subdivLayer ex_ctx) ''US-AK'' = {}
   \<and> filter (\<lambda>l. subdiv_line_code l = ''US-AK'')
        (subdiv_lines [(''US-NY'', [(''America/New_York'', 2)]),
                       (''US-IL'', [(''America/New_York'', 1), (''America/Chicago'', 2)]),
                       (''US-AK'', [])])
       = [SubdivComment ''US-AK'']"
proof -
  have mem: "''US-AK'' \<in> attribute ` set (subdivLayer ex_ctx)"
    by (simp add: ex_ctx_def feat_def)
  have m: "card (qualifying_tzs cells_engine ex_cfg (tzLayer ex_ctx) (countryLayer ex_ctx) (take 2 ''US-AK'')) > 1"
    by code_simp
  have q: "qualifying_tzs cells_engine ex_cfg (tzLayer ex_ctx) (subdivLayer ex_ctx) ''US-AK'' = {}"
    by code_simp
  note inst = C7_subdiv_placeholder[OF ex_region_run refl mem]
  from inst m q have "filter (\<lambda>l. subdiv_line_code l = ''US-AK'')
        (subdiv_lines [(''US-NY'', [(''America/New_York'', 2)]),
                       (''US-IL'', [(''America/New_York'', 1), (''America/Chicago'', 2)]),
                       (''US-AK'', [])])
       = [SubdivComment ''US-AK'']" by blast
  with ex_region_run mem m q show ?thesis by blast
qed

text \<open>
  C6. On a successful run, for a subdivision code whose country prefix has more than one
  qualifying timezone: the dictionary stored for the code has exactly the qualifying
  normalized timezone identifiers of the subdivision as keys, each with its cumulative
  intersection area; the table has one data row per such identifier, in order of
  non-increasing cumulative area. A code whose country prefix has at most one qualifying
  timezone has no line. The lines are sorted by subdivision code, and they are the body of
  the subdivision file.
\<close>

theorem C6_subdiv_rows:
  assumes "snd (RegionToTimezoneMapTask_run enum eng cfg ctx) = Inr (countryToTz, subdivToTz)"
    and "ls = subdiv_lines subdivToTz"
    and "code \<in> attribute ` set (subdivLayer ctx)"
    and "Q = qualifying_tzs eng cfg (tzLayer ctx) (subdivLayer ctx) code"
    and "A = region_tz_area eng cfg (tzLayer ctx) (subdivLayer ctx) code"
    and "n = card (qualifying_tzs eng cfg (tzLayer ctx) (countryLayer ctx) (take 2 code))"
  shows "(n > 1 \<longrightarrow>
            set (map fst (the (map_of subdivToTz code))) = Q
          \<and> (\<forall>t \<in> Q. map_of (the (map_of subdivToTz code)) t = Some (A t))
          \<and> distinct (subdiv_row_tzs code ls)
          \<and> set (subdiv_row_tzs code ls) = Q
          \<and> sorted_wrt (\<lambda>a b. a \<ge> b) (map A (subdiv_row_tzs code ls)))
    \<and> (n \<le> 1 \<longrightarrow> filter (\<lambda>l. subdiv_line_code l = code) ls = [])
    \<and> sorted (map subdiv_line_code ls)
    \<and> map_of (fst (RegionToTimezoneMapTask_run enum eng cfg ctx))
         ''../../data/subdivision_timezone_map.cpp'' = Some (subdiv_file ls)"
proof -
  from assms(1) have cl: "country_loop eng cfg (tzLayer ctx) (countryLayer ctx) [] = Inr countryToTz"
    and sl: "subdiv_loop eng cfg countryToTz (tzLayer ctx) (subdivLayer ctx) [] = Inr subdivToTz"
    by (simp_all add: run_region_Inr)
  have dist: "distinct (map fst subdivToTz)"
    using subdiv_loop_distinct[OF sl] by simp
  note flt = subdiv_lines_filter[OF dist, of code]
  have multi_n: "multi_tz_country countryToTz code \<longleftrightarrow> n > 1"
    by (simp add: multi_tz_country_iff[OF cl] assms(6))
  let ?m = "the (map_of subdivToTz code)"
  have many: "set (map fst ?m) = Q
          \<and> (\<forall>t \<in> Q. map_of ?m t = Some (A t))
          \<and> distinct (subdiv_row_tzs code ls)
          \<and> set (subdiv_row_tzs code ls) = Q
          \<and> sorted_wrt (\<lambda>a b. a \<ge> b) (map A (subdiv_row_tzs code ls))" if "n > 1"
  proof -
    from that have multi: "multi_tz_country countryToTz code" by (simp add: multi_n)
    note p = subdiv_pass_multi[OF sl multi assms(3)]
    have keys: "set (map fst ?m) = Q" using p(3) by (simp add: assms(4))
    have vals: "\<forall>t \<in> Q. map_of ?m t = Some (A t)" using p(4) by (simp add: assms(4,5))
    have rows: "subdiv_row_tzs code ls = tzs_by_area ?m"
      using row_tzs_filter[of code ls] flt p(1) by (simp add: assms(2) row_tzs_block)
    have d: "distinct (subdiv_row_tzs code ls)"
      unfolding rows using p(2) by (rule tzs_by_area_props(2))
    have s: "set (subdiv_row_tzs code ls) = Q"
      unfolding rows using keys by (simp add: tzs_by_area_props(1))
    have "sorted (map (\<lambda>x. - the (map_of ?m x)) (tzs_by_area ?m))"
      by (rule tzs_by_area_props(3))
    then have "sorted_wrt (\<lambda>x y. the (map_of ?m x) \<ge> the (map_of ?m y)) (tzs_by_area ?m)"
      by (simp add: sorted_wrt_map)
    then have "sorted_wrt (\<lambda>x y. A x \<ge> A y) (tzs_by_area ?m)"
    proof (rule sorted_wrt_mono_rel[rotated])
      fix x y assume "x \<in> set (tzs_by_area ?m)" "y \<in> set (tzs_by_area ?m)"
        and "the (map_of ?m x) \<ge> the (map_of ?m y)"
      then show "A x \<ge> A y" using vals s rows by simp
    qed
    then have "sorted_wrt (\<lambda>a b. a \<ge> b) (map A (subdiv_row_tzs code ls))"
      by (simp add: sorted_wrt_map rows)
    with keys vals d s show ?thesis by blast
  qed
  have few: "filter (\<lambda>l. subdiv_line_code l = code) ls = []" if "n \<le> 1"
  proof -
    from that have "\<not> multi_tz_country countryToTz code" by (simp add: multi_n)
    from subdiv_pass_single[OF sl this] flt show ?thesis by (simp add: assms(2))
  qed
  have srt: "sorted (map subdiv_line_code ls)"
    by (simp add: assms(2) subdiv_lines_sorted)
  have fl: "map_of (fst (RegionToTimezoneMapTask_run enum eng cfg ctx))
         ''../../data/subdivision_timezone_map.cpp'' = Some (subdiv_file ls)"
    by (simp add: run_region_files[OF assms(1)] assms(2))
  from many few srt fl show ?thesis by blast
qed

theorem C6_subdiv_rows_witness:
  "snd (RegionToTimezoneMapTask_run enum_asc cells_engine ex_cfg ex_ctx)
     = Inr ([(''US'', {''America/New_York'', ''America/Chicago''}), (''DE'', {''Europe/Berlin''}),
             (''CH'', {''Europe/Zurich''}), (''LI'', {''Europe/Zurich''})],
            [(''US-NY'', [(''America/New_York'', 2)]),
             (''US-IL'', [(''America/New_York'', 1), (''America/Chicago'', 2)]),
             (''US-AK'', [])])
   \<and> ''US-IL'' \<in> attribute ` set (subdivLayer ex_ctx)
   \<and> card (qualifying_tzs cells_engine ex_cfg (tzLayer ex_ctx) (countryLayer ex_ctx) (take 2 ''US-IL'')) = 2
   \<and> qualifying_tzs cells_engine ex_cfg (tzLayer ex_ctx) (subdivLayer ex_ctx) ''US-IL''
       = {''America/New_York'', ''America/Chicago''}
   \<and> ''America/Chicago'' \<in> qualifying_tzs cells_engine ex_cfg (tzLayer ex_ctx) (subdivLayer ex_ctx) ''US-IL''
   \<and> map_of [(''America/New_York'', 1), (''America/Chicago'', 2::rat)] ''America/Chicago''
       = Some (region_tz_area cells_engine ex_cfg (tzLayer ex_ctx) (subdivLayer ex_ctx) ''US-IL''
                 ''America/Chicago'')
   \<and> subdiv_row_tzs ''US-IL''
        (subdiv_lines [(''US-NY'', [(''America/New_York'', 2)]),
                       (''US-IL'', [(''America/New_York'', 1), (''America/Chicago'', 2)]),
                       (''US-AK'', [])])
       = [''America/Chicago'', ''America/New_York'']
   \<and> sorted_wrt (\<lambda>a b. a \<ge> b)
        (map (region_tz_area cells_engine ex_cfg (tzLayer ex_ctx) (subdivLayer ex_ctx) ''US-IL'')
           [''America/Chicago'', ''America/New_York''])"
proof -
  let ?s2t = "[(''US-NY'', [(''America/New_York'', 2)]),
               (''US-IL'', [(''America/New_York'', 1), (''America/Chicago'', 2::rat)]),
               (''US-AK'', [])]"
  have mem: "''US-IL'' \<in> attribute ` set (subdivLayer ex_ctx)"
    by (simp add: ex_ctx_def feat_def)
  have n: "card (qualifying_tzs cells_engine ex_cfg (tzLayer ex_ctx) (countryLayer ex_ctx) (take 2 ''US-IL'')) = 2"
    by code_simp
  have q: "qualifying_tzs cells_engine ex_cfg (tzLayer ex_ctx) (subdivLayer ex_ctx) ''US-IL''
       = {''America/New_York'', ''America/Chicago''}"
    by code_simp
  have rows: "subdiv_row_tzs ''US-IL'' (subdiv_lines ?s2t) = [''America/Chicago'', ''America/New_York'']"
    by code_simp
  have look: "the (map_of ?s2t ''US-IL'') = [(''America/New_York'', 1), (''America/Chicago'', 2)]"
    by simp
  note inst = C6_subdiv_rows[OF ex_region_run refl mem refl refl refl]
  have n1: "card (qualifying_tzs cells_engine ex_cfg (tzLayer ex_ctx) (countryLayer ex_ctx) (take 2 ''US-IL'')) > 1"
    using n by simp
  have c: "''America/Chicago'' \<in> qualifying_tzs cells_engine ex_cfg (tzLayer ex_ctx) (subdivLayer ex_ctx) ''US-IL''"
    by (simp add: q)
  from inst n1 have "\<forall>t \<in> qualifying_tzs cells_engine ex_cfg (tzLayer ex_ctx) (subdivLayer ex_ctx) ''US-IL''.
      map_of (the (map_of ?s2t ''US-IL'')) t
        = Some (region_tz_area cells_engine ex_cfg (tzLayer ex_ctx) (subdivLayer ex_ctx) ''US-IL'' t)"
    by blast
  from this[rule_format, OF c]
  have v: "map_of [(''America/New_York'', 1), (''America/Chicago'', 2::rat)] ''America/Chicago''
       = Some (region_tz_area cells_engine ex_cfg (tzLayer ex_ctx) (subdivLayer ex_ctx) ''US-IL''
                 ''America/Chicago'')"
    unfolding look .
  from inst n1 have "sorted_wrt (\<lambda>a b. a \<ge> b)
        (map (region_tz_area cells_engine ex_cfg (tzLayer ex_ctx) (subdivLayer ex_ctx) ''US-IL'')
           (subdiv_row_tzs ''US-IL'' (subdiv_lines ?s2t)))"
    by blast
  then have srt: "sorted_wrt (\<lambda>a b. a \<ge> b)
        (map (region_tz_area cells_engine ex_cfg (tzLayer ex_ctx) (subdivLayer ex_ctx) ''US-IL'')
           [''America/Chicago'', ''America/New_York''])"
    unfolding rows .
  from ex_region_run mem n q c v rows srt show ?thesis by blast
qed

lemma ex_tie_subdiv_loop:
  "subdiv_loop cells_engine ex_cfg
     [(''US'', {''America/New_York'', ''America/Chicago''}), (''DE'', {''Europe/Berlin''}),
      (''CH'', {''Europe/Zurich''}), (''LI'', {''Europe/Zurich''})]
     (tzLayer ex_tie_ctx) (subdivLayer ex_tie_ctx) []
     = Inr [(''US-IL'', [(''America/New_York'', 1), (''America/Chicago'', 1)])]"
  by code_simp

lemma ex_tie_country_loop:
  "country_loop cells_engine ex_cfg (tzLayer ex_tie_ctx) (countryLayer ex_tie_ctx) []
     = Inr [(''US'', {''America/New_York'', ''America/Chicago''}), (''DE'', {''Europe/Berlin''}),
            (''CH'', {''Europe/Zurich''}), (''LI'', {''Europe/Zurich''})]"
  by code_simp

theorem C6_strict_order_counterexample:
  "snd (RegionToTimezoneMapTask_run enum_asc cells_engine ex_cfg ex_tie_ctx)
     = Inr ([(''US'', {''America/New_York'', ''America/Chicago''}), (''DE'', {''Europe/Berlin''}),
             (''CH'', {''Europe/Zurich''}), (''LI'', {''Europe/Zurich''})],
            [(''US-IL'', [(''America/New_York'', 1), (''America/Chicago'', 1)])])
   \<and> subdiv_lines [(''US-IL'', [(''America/New_York'', 1), (''America/Chicago'', 1)])]
       = [SubdivRow ''US-IL'' ''America/New_York'', SubdivRow ''US-IL'' ''America/Chicago'']
   \<and> region_tz_area cells_engine ex_cfg (tzLayer ex_tie_ctx) (subdivLayer ex_tie_ctx) ''US-IL''
        ''America/New_York'' = 1
   \<and> region_tz_area cells_engine ex_cfg (tzLayer ex_tie_ctx) (subdivLayer ex_tie_ctx) ''US-IL''
        ''America/Chicago'' = 1
   \<and> subdiv_row_tzs ''US-IL''
        (subdiv_lines [(''US-IL'', [(''America/New_York'', 1), (''America/Chicago'', 1)])])
       = [''America/New_York'', ''America/Chicago'']
   \<and> \<not> region_tz_area cells_engine ex_cfg (tzLayer ex_tie_ctx) (subdivLayer ex_tie_ctx) ''US-IL''
          ''America/New_York''
        > region_tz_area cells_engine ex_cfg (tzLayer ex_tie_ctx) (subdivLayer ex_tie_ctx) ''US-IL''
          ''America/Chicago''"
proof -
  have run: "snd (RegionToTimezoneMapTask_run enum_asc cells_engine ex_cfg ex_tie_ctx)
     = Inr ([(''US'', {''America/New_York'', ''America/Chicago''}), (''DE'', {''Europe/Berlin''}),
             (''CH'', {''Europe/Zurich''}), (''LI'', {''Europe/Zurich''})],
            [(''US-IL'', [(''America/New_York'', 1), (''America/Chicago'', 1)])])"
    unfolding run_region_Inr using ex_tie_country_loop ex_tie_subdiv_loop by simp
  have ls: "subdiv_lines [(''US-IL'', [(''America/New_York'', 1), (''America/Chicago'', 1)])]
       = [SubdivRow ''US-IL'' ''America/New_York'', SubdivRow ''US-IL'' ''America/Chicago'']"
    by code_simp
  have a1: "region_tz_area cells_engine ex_cfg (tzLayer ex_tie_ctx) (subdivLayer ex_tie_ctx) ''US-IL''
        ''America/New_York'' = 1" by code_simp
  have a2: "region_tz_area cells_engine ex_cfg (tzLayer ex_tie_ctx) (subdivLayer ex_tie_ctx) ''US-IL''
        ''America/Chicago'' = 1" by code_simp
  have rows: "subdiv_row_tzs ''US-IL''
        (subdiv_lines [(''US-IL'', [(''America/New_York'', 1), (''America/Chicago'', 1)])])
       = [''America/New_York'', ''America/Chicago'']"
    unfolding ls by (simp add: subdiv_row_tzs_def)
  have "\<not> region_tz_area cells_engine ex_cfg (tzLayer ex_tie_ctx) (subdivLayer ex_tie_ctx) ''US-IL''
          ''America/New_York''
        > region_tz_area cells_engine ex_cfg (tzLayer ex_tie_ctx) (subdivLayer ex_tie_ctx) ''US-IL''
          ''America/Chicago''"
    by (simp add: a1 a2)
  with run ls a1 a2 rows show ?thesis by blast
qed

subsection \<open>The exceptions of the region pass\<close>

lemma dual_threshold_Inl: "dual_threshold a y z = Inl e \<Longrightarrow> e = ZeroDivisionError"
  by (auto simp: dual_threshold_def float_div_def split: if_splits)

lemma country_tz_loop_Inl:
  "country_tz_loop eng cfg g a tzs acc = Inl e \<Longrightarrow> e = ZeroDivisionError"
  by (induction tzs arbitrary: acc) (auto split: if_splits sum.splits dest: dual_threshold_Inl)

lemma country_loop_Inl:
  "country_loop eng cfg tzs cs d0 = Inl e \<Longrightarrow> e = ZeroDivisionError"
  by (induction cs arbitrary: d0)
     (auto simp: Let_def split: if_splits sum.splits dest: country_tz_loop_Inl)

lemma subdiv_tz_loop_Inl:
  "subdiv_tz_loop eng cfg g a tzs m = Inl e \<Longrightarrow> e = ZeroDivisionError"
  by (induction tzs arbitrary: m) (auto split: if_splits sum.splits dest: dual_threshold_Inl)

lemma subdiv_loop_Inl:
  assumes "subdiv_loop eng cfg c2t tzs subs d0 = Inl e"
    and "(\<lambda>s. take 2 (attribute s)) ` set subs \<subseteq> set (map fst c2t)"
  shows "e = ZeroDivisionError"
  using assms
proof (induction subs arbitrary: d0)
  case Nil then show ?case by simp
next
  case (Cons s rest)
  from Cons.prems(2) have "take 2 (attribute s) \<in> set (map fst c2t)" by simp
  then obtain ctzs where c: "map_of c2t (take 2 (attribute s)) = Some ctzs"
    using map_of_keys[of c2t "take 2 (attribute s)"] by auto
  from Cons.prems(2) have sub: "(\<lambda>s. take 2 (attribute s)) ` set rest \<subseteq> set (map fst c2t)" by auto
  from Cons.prems(1) c Cons.IH[OF _ sub] show ?case
    by (auto simp: Let_def split: if_splits sum.splits dest: subdiv_tz_loop_Inl)
qed

text \<open>
  C10. The subdivision pass looks the two-letter prefix of every subdivision code up in
  the country dictionary. If every subdivision's prefix is the code of some country feature,
  the run does not end in a \<^verbatim>\<open>KeyError\<close>. For the layers \<^const>\<open>ex_orphan_ctx\<close>, whose one
  subdivision has a prefix that is no country's code, the run ends in \<^verbatim>\<open>KeyError\<close> on that
  prefix, after the country file has been written.
\<close>

theorem C10_prefix_lookup:
  "((\<lambda>s. take 2 (attribute s)) ` set (subdivLayer ctx) \<subseteq> attribute ` set (countryLayer ctx)
      \<longrightarrow> snd (RegionToTimezoneMapTask_run enum eng cfg ctx) \<noteq> Inl (KeyError k))
   \<and> \<not> (\<lambda>s. take 2 (attribute s)) ` set (subdivLayer ex_orphan_ctx)
          \<subseteq> attribute ` set (countryLayer ex_orphan_ctx)
   \<and> snd (RegionToTimezoneMapTask_run enum cells_engine ex_cfg ex_orphan_ctx)
       = Inl (KeyError ''FR'')
   \<and> map fst (fst (RegionToTimezoneMapTask_run enum cells_engine ex_cfg ex_orphan_ctx))
       = [''../../data/country_timezone_map.cpp'']"
proof -
  have safe: "snd (RegionToTimezoneMapTask_run enum eng cfg ctx) \<noteq> Inl (KeyError k)"
    if pre: "(\<lambda>s. take 2 (attribute s)) ` set (subdivLayer ctx) \<subseteq> attribute ` set (countryLayer ctx)"
  proof (cases "country_loop eng cfg (tzLayer ctx) (countryLayer ctx) []")
    case (Inl e)
    then have "e = ZeroDivisionError" by (rule country_loop_Inl)
    with Inl show ?thesis by (simp add: RegionToTimezoneMapTask_run_def)
  next
    case (Inr c2t)
    have "set (map fst c2t) = attribute ` set (countryLayer ctx)"
      using country_loop_keys[OF Inr] by simp
    with pre have sub: "(\<lambda>s. take 2 (attribute s)) ` set (subdivLayer ctx) \<subseteq> set (map fst c2t)"
      by simp
    show ?thesis
    proof (cases "subdiv_loop eng cfg c2t (tzLayer ctx) (subdivLayer ctx) []")
      case (Inl e)
      from subdiv_loop_Inl[OF Inl sub] have "e = ZeroDivisionError" .
      with Inl Inr show ?thesis by (simp add: RegionToTimezoneMapTask_run_def)
    next
      case (Inr s2t)
      with \<open>country_loop eng cfg (tzLayer ctx) (countryLayer ctx) [] = Inr c2t\<close>
      show ?thesis by (simp add: RegionToTimezoneMapTask_run_def)
    qed
  qed
  have npre: "\<not> (\<lambda>s. take 2 (attribute s)) ` set (subdivLayer ex_orphan_ctx)
          \<subseteq> attribute ` set (countryLayer ex_orphan_ctx)"
    by (simp add: ex_orphan_ctx_def ex_ctx_def feat_def)
  have cl: "country_loop cells_engine ex_cfg (tzLayer ex_orphan_ctx) (countryLayer ex_orphan_ctx) []
     = Inr [(''US'', {''America/New_York'', ''America/Chicago''}), (''DE'', {''Europe/Berlin''}),
            (''CH'', {''Europe/Zurich''}), (''LI'', {''Europe/Zurich''})]"
    using ex_country_loop by (simp add: ex_orphan_ctx_def)
  have sl: "subdiv_loop cells_engine ex_cfg
       [(''US'', {''America/New_York'', ''America/Chicago''}), (''DE'', {''Europe/Berlin''}),
        (''CH'', {''Europe/Zurich''}), (''LI'', {''Europe/Zurich''})]
       (tzLayer ex_orphan_ctx) (subdivLayer ex_orphan_ctx) [] = Inl (KeyError ''FR'')"
    by (simp add: ex_orphan_ctx_def feat_def)
  have r1: "snd (RegionToTimezoneMapTask_run enum cells_engine ex_cfg ex_orphan_ctx)
       = Inl (KeyError ''FR'')"
    by (simp add: RegionToTimezoneMapTask_run_def cl sl)
  have r2: "map fst (fst (RegionToTimezoneMapTask_run enum cells_engine ex_cfg ex_orphan_ctx))
       = [''../../data/country_timezone_map.cpp'']"
    by (simp add: RegionToTimezoneMapTask_run_def cl sl)
  from safe npre r1 r2 show ?thesis by blast
qed

theorem C10_prefix_lookup_witness:
  "(\<lambda>s. take 2 (attribute s)) ` set (subdivLayer ex_ctx) \<subseteq> attribute ` set (countryLayer ex_ctx)
   \<and> snd (RegionToTimezoneMapTask_run enum_asc cells_engine ex_cfg ex_ctx) \<noteq> Inl (KeyError ''US'')
   \<and> snd (RegionToTimezoneMapTask_run enum_asc cells_engine ex_cfg ex_orphan_ctx)
       = Inl (KeyError ''FR'')"
proof -
  have pre: "(\<lambda>s. take 2 (attribute s)) ` set (subdivLayer ex_ctx) \<subseteq> attribute ` set (countryLayer ex_ctx)"
    by (simp add: ex_ctx_def feat_def)
  note inst = C10_prefix_lookup[of ex_ctx enum_asc cells_engine ex_cfg "''US''"]
  from inst pre show ?thesis by blast
qed

subsection \<open>Referential integrity\<close>

lemma set_enumerators:
  assumes "valid_enum enum"
  shows "set (enumerators enum layer) = tzIdToEnum ` attribute ` set layer"
proof -
  let ?T = "sorted_tzIds enum layer"
  have "map fst (enum_entries ?T) = map (\<lambda>i. tzIdToEnum (?T ! i)) [0..<length ?T]"
    by (simp add: enum_entries_def comp_def)
  also have "\<dots> = map tzIdToEnum (map (\<lambda>i. ?T ! i) [0..<length ?T])" by (simp add: comp_def)
  also have "\<dots> = map tzIdToEnum ?T" by (simp add: map_nth)
  finally show ?thesis
    using sorted_tzIds_props(3)[OF assms, of layer] by (simp add: enumerators_def)
qed

lemma tz_loop_keys:
  "tz_loop eng cfg countries tzs d0 = Inr d \<Longrightarrow>
     set (map fst d) = set (map fst d0) \<union> attribute ` set tzs"
proof (induction tzs arbitrary: d0)
  case Nil then show ?case by simp
next
  case (Cons tz rest)
  from Cons.prems obtain cs where
    r: "tz_loop eng cfg countries rest
       (AList.update (attribute tz) cs (AList.update (attribute tz) {} d0)) = Inr d"
    by (auto simp del: update_last simp: Let_def feature_in_keys_def split: sum.splits)
  have "set (map fst (AList.update (attribute tz) cs (AList.update (attribute tz) {} d0)))
          = insert (attribute tz) (set (map fst d0))"
    unfolding keys_update by simp
  with Cons.IH[OF r] show ?case by auto
qed

lemma qualifying_tzs_subset:
  "qualifying_tzs eng cfg tzs regions code \<subseteq> (\<lambda>tz. normalizedTz cfg (attribute tz)) ` set tzs"
  by (auto simp: qualifying_tzs_def)

lemma country_refs_subset:
  assumes "valid_enum enum" and "country_loop eng cfg tzs countries [] = Inr c2t"
  shows "snd ` set (country_rows enum c2t) \<subseteq> (\<lambda>tz. normalizedTz cfg (attribute tz)) ` set tzs"
proof
  fix t assume "t \<in> snd ` set (country_rows enum c2t)"
  then obtain k where k: "k \<in> set (map fst c2t)" "card (the (map_of c2t k)) = 1"
    and t: "t = hd (enum (the (map_of c2t k)))"
    by (fastforce simp: country_rows_alt)
  have keys: "set (map fst c2t) = attribute ` set countries"
    using country_loop_keys[OF assms(2)] by simp
  have S: "the (map_of c2t k) = qualifying_tzs eng cfg tzs countries k"
    using country_loop_result[OF assms(2), of k] k(1) keys by simp
  from k(2) obtain x where x: "the (map_of c2t k) = {x}" by (auto simp: card_1_singleton_iff)
  then have "t = x" using t valid_enum_hd[OF assms(1), of x] by simp
  with x S have "t \<in> qualifying_tzs eng cfg tzs countries k" by simp
  then show "t \<in> (\<lambda>tz. normalizedTz cfg (attribute tz)) ` set tzs"
    using qualifying_tzs_subset by blast
qed

lemma subdiv_refs_subset:
  assumes "subdiv_loop eng cfg c2t tzs subs [] = Inr s2t"
    and "SubdivRow k t \<in> set (subdiv_lines s2t)"
  shows "t \<in> (\<lambda>tz. normalizedTz cfg (attribute tz)) ` set tzs"
proof -
  from assms(2) obtain k' where k': "k' \<in> set (map fst s2t)"
    and blk: "SubdivRow k t \<in> set (subdiv_block s2t k')"
    by (auto simp: subdiv_lines_blocks)
  from subdiv_block_code[OF blk] have kk: "k' = k" by simp
  from blk kk have t: "t \<in> set (map fst (the (map_of s2t k)))"
    by (auto simp: subdiv_block_def tzs_by_area_props(1) split: if_splits)
  have multi: "multi_tz_country c2t k"
    using subdiv_pass_single[OF assms(1), of k] k' kk by blast
  have d0: "distinct (map fst (entry [] k :: (string \<times> rat) list))" by (simp add: entry_def)
  from subdiv_loop_result[OF assms(1) d0] multi k' kk
  have "k \<in> attribute ` set subs" using map_of_keys[of s2t k] by auto
  from subdiv_pass_multi(3)[OF assms(1) multi this] t
  show ?thesis using qualifying_tzs_subset by blast
qed

text \<open>
  C2. Every name written after \<^verbatim>\<open>Tz::\<close> in the timezone to country table is an enumerator
  of the enumeration built from the same timezone layer. The same holds for the country and
  the subdivision table provided that normalization sends every identifier of the layer to
  an identifier of the layer.
\<close>

theorem C2_referential_integrity:
  assumes "valid_enum enum"
    and "snd (RegionToTimezoneMapTask_run enum eng cfg ctx) = Inr (countryToTz, subdivToTz)"
    and "tz_loop eng cfg (countryLayer ctx) (tzLayer ctx) [] = Inr tzToCountry"
  shows "set (map tz_line_ref (tz_lines enum cfg tzToCountry))
           \<subseteq> set (enumerators enum (tzLayer ctx))
    \<and> ((\<lambda>tz. normalizedTz cfg (attribute tz)) ` set (tzLayer ctx) \<subseteq> attribute ` set (tzLayer ctx)
        \<longrightarrow> set (country_refs (country_rows enum countryToTz)) \<subseteq> set (enumerators enum (tzLayer ctx))
          \<and> set (concat (map subdiv_line_refs (subdiv_lines subdivToTz)))
              \<subseteq> set (enumerators enum (tzLayer ctx)))"
proof -
  note en = set_enumerators[OF assms(1), of "tzLayer ctx"]
  from assms(2) have cl: "country_loop eng cfg (tzLayer ctx) (countryLayer ctx) [] = Inr countryToTz"
    and sl: "subdiv_loop eng cfg countryToTz (tzLayer ctx) (subdivLayer ctx) [] = Inr subdivToTz"
    by (simp_all add: run_region_Inr)
  have ref_id: "tz_line_ref l = tzIdToEnum (tz_line_id l)" for l by (cases l) simp_all
  have "set (map tz_line_id (tz_lines enum cfg tzToCountry)) = attribute ` set (tzLayer ctx)"
    using tz_loop_keys[OF assms(3)] by (simp add: tz_lines_ids)
  then have "tzIdToEnum ` set (map tz_line_id (tz_lines enum cfg tzToCountry))
      = tzIdToEnum ` attribute ` set (tzLayer ctx)"
    by (rule arg_cong)
  moreover have "set (map tz_line_ref (tz_lines enum cfg tzToCountry))
      = tzIdToEnum ` set (map tz_line_id (tz_lines enum cfg tzToCountry))"
    by (simp add: ref_id[abs_def] image_image)
  ultimately have "set (map tz_line_ref (tz_lines enum cfg tzToCountry))
      = tzIdToEnum ` attribute ` set (tzLayer ctx)"
    by (rule ssubst[rotated])
  then have part1: "set (map tz_line_ref (tz_lines enum cfg tzToCountry))
           \<subseteq> set (enumerators enum (tzLayer ctx))"
    using en by simp
  have part2: "set (country_refs (country_rows enum countryToTz)) \<subseteq> set (enumerators enum (tzLayer ctx))
          \<and> set (concat (map subdiv_line_refs (subdiv_lines subdivToTz)))
              \<subseteq> set (enumerators enum (tzLayer ctx))"
    if closed: "(\<lambda>tz. normalizedTz cfg (attribute tz)) ` set (tzLayer ctx) \<subseteq> attribute ` set (tzLayer ctx)"
  proof
    have "snd ` set (country_rows enum countryToTz) \<subseteq> attribute ` set (tzLayer ctx)"
      using country_refs_subset[OF assms(1) cl] closed by blast
    then show "set (country_refs (country_rows enum countryToTz)) \<subseteq> set (enumerators enum (tzLayer ctx))"
      unfolding en by (auto simp: country_refs_def)
  next
    show "set (concat (map subdiv_line_refs (subdiv_lines subdivToTz)))
              \<subseteq> set (enumerators enum (tzLayer ctx))"
    proof
      fix n assume "n \<in> set (concat (map subdiv_line_refs (subdiv_lines subdivToTz)))"
      then obtain l where l: "l \<in> set (subdiv_lines subdivToTz)" "n \<in> set (subdiv_line_refs l)"
        by auto
      from l(2) obtain k t where lt: "l = SubdivRow k t" "n = tzIdToEnum t" by (cases l) auto
      from subdiv_refs_subset[OF sl] l(1) lt(1)
      have "t \<in> (\<lambda>tz. normalizedTz cfg (attribute tz)) ` set (tzLayer ctx)" by blast
      with closed have "t \<in> attribute ` set (tzLayer ctx)" by blast
      then show "n \<in> set (enumerators enum (tzLayer ctx))" unfolding en lt(2) by blast
    qed
  qed
  from part1 part2 show ?thesis by blast
qed

theorem C2_referential_integrity_witness:
  "valid_enum enum_asc
   \<and> snd (RegionToTimezoneMapTask_run enum_asc cells_engine ex_cfg ex_ctx)
     = Inr ([(''US'', {''America/New_York'', ''America/Chicago''}), (''DE'', {''Europe/Berlin''}),
             (''CH'', {''Europe/Zurich''}), (''LI'', {''Europe/Zurich''})],
            [(''US-NY'', [(''America/New_York'', 2)]),
             (''US-IL'', [(''America/New_York'', 1), (''America/Chicago'', 2)]),
             (''US-AK'', [])])
   \<and> tz_loop cells_engine ex_cfg (countryLayer ex_ctx) (tzLayer ex_ctx) []
       = Inr [(''Europe/Berlin'', {''DE''}), (''Europe/Busingen'', {''DE''}),
              (''America/New_York'', {''US''}), (''America/Chicago'', {''US''}),
              (''Europe/Zurich'', {''CH'', ''LI''})]
   \<and> (\<lambda>tz. normalizedTz ex_cfg (attribute tz)) ` set (tzLayer ex_ctx) \<subseteq> attribute ` set (tzLayer ex_ctx)
   \<and> set (country_refs (country_rows enum_asc
        [(''US'', {''America/New_York'', ''America/Chicago''}), (''DE'', {''Europe/Berlin''}),
         (''CH'', {''Europe/Zurich''}), (''LI'', {''Europe/Zurich''})]))
       \<subseteq> set (enumerators enum_asc (tzLayer ex_ctx))
   \<and> country_refs (country_rows enum_asc
        [(''US'', {''America/New_York'', ''America/Chicago''}), (''DE'', {''Europe/Berlin''}),
         (''CH'', {''Europe/Zurich''}), (''LI'', {''Europe/Zurich''})])
       = [''Europe_Zurich'', ''Europe_Berlin'', ''Europe_Zurich'']
   \<and> enumerators enum_asc (tzLayer ex_ctx)
       = [''America_Chicago'', ''America_New_York'', ''Europe_Berlin'', ''Europe_Busingen'',
          ''Europe_Zurich'']"
proof -
  have closed: "(\<lambda>tz. normalizedTz ex_cfg (attribute tz)) ` set (tzLayer ex_ctx) \<subseteq> attribute ` set (tzLayer ex_ctx)"
    by (simp add: ex_ctx_def ex_cfg_def feat_def normalizedTz_def)
  note inst = C2_referential_integrity[OF valid_enum_asc ex_region_run ex_tz_loop]
  from inst closed have sub: "set (country_refs (country_rows enum_asc
        [(''US'', {''America/New_York'', ''America/Chicago''}), (''DE'', {''Europe/Berlin''}),
         (''CH'', {''Europe/Zurich''}), (''LI'', {''Europe/Zurich''})]))
       \<subseteq> set (enumerators enum_asc (tzLayer ex_ctx))" by blast
  have refs: "country_refs (country_rows enum_asc
        [(''US'', {''America/New_York'', ''America/Chicago''}), (''DE'', {''Europe/Berlin''}),
         (''CH'', {''Europe/Zurich''}), (''LI'', {''Europe/Zurich''})])
       = [''Europe_Zurich'', ''Europe_Berlin'', ''Europe_Zurich'']"
    unfolding enum_asc_def by code_simp
  have ens: "enumerators enum_asc (tzLayer ex_ctx)
       = [''America_Chicago'', ''America_New_York'', ''Europe_Berlin'', ''Europe_Busingen'',
          ''Europe_Zurich'']"
    by (simp add: enumerators_def ex_tzIds enum_entries_def tzIdToEnum_def replace_char_def)
  from valid_enum_asc ex_region_run ex_tz_loop closed sub refs ens show ?thesis by blast
qed

theorem C2_normalized_reference_counterexample:
  "snd (RegionToTimezoneMapTask_run enum_asc cells_engine ex_alias_cfg ex_alias_ctx)
     = Inr ([(''IN'', {''Asia/Kolkata''})], [])
   \<and> country_refs (country_rows enum_asc [(''IN'', {''Asia/Kolkata''})]) = [''Asia_Kolkata'']
   \<and> enumerators enum_asc (tzLayer ex_alias_ctx) = [''Asia_Calcutta'']
   \<and> \<not> set (country_refs (country_rows enum_asc [(''IN'', {''Asia/Kolkata''})]))
          \<subseteq> set (enumerators enum_asc (tzLayer ex_alias_ctx))"
proof -
  have cl: "country_loop cells_engine ex_alias_cfg (tzLayer ex_alias_ctx) (countryLayer ex_alias_ctx) []
      = Inr [(''IN'', {''Asia/Kolkata''})]"
    by code_simp
  have sl: "subdiv_loop cells_engine ex_alias_cfg [(''IN'', {''Asia/Kolkata''})]
      (tzLayer ex_alias_ctx) (subdivLayer ex_alias_ctx) [] = Inr []"
    by (simp add: ex_alias_ctx_def)
  have run: "snd (RegionToTimezoneMapTask_run enum_asc cells_engine ex_alias_cfg ex_alias_ctx)
     = Inr ([(''IN'', {''Asia/Kolkata''})], [])"
    unfolding run_region_Inr using cl sl by simp
  have refs: "country_refs (country_rows enum_asc [(''IN'', {''Asia/Kolkata''})]) = [''Asia_Kolkata'']"
    unfolding enum_asc_def by code_simp
  have ens: "enumerators enum_asc (tzLayer ex_alias_ctx) = [''Asia_Calcutta'']"
    unfolding enum_asc_def by code_simp
  have "\<not> set (country_refs (country_rows enum_asc [(''IN'', {''Asia/Kolkata''})]))
          \<subseteq> set (enumerators enum_asc (tzLayer ex_alias_ctx))"
    unfolding refs ens by simp
  with run refs ens show ?thesis by blast
qed

subsection \<open>The candidate countries of a timezone\<close>

text \<open>What the run holds for an identifier: the matches of the last feature bearing it.\<close>

lemma tz_country_loop_result:
  "tz_country_loop eng cfg g (area eng g) countries acc = Inr r \<Longrightarrow>
     r = acc \<union> feature_countries eng cfg countries g"
proof (induction countries arbitrary: acc)
  case Nil then show ?case by (simp add: feature_countries_def)
next
  case (Cons c rest)
  show ?case
  proof (cases "normalizedCountry cfg (attribute c) \<noteq> [] \<and> intersects eng (geometry c) g")
    case False
    with Cons.prems have "tz_country_loop eng cfg g (area eng g) rest acc = Inr r"
      by (auto split: if_splits)
    from Cons.IH[OF this] False show ?thesis
      by (auto simp: feature_countries_def country_matches_tz_def)
  next
    case True
    with Cons.prems obtain ok where
      ok: "dual_threshold (area eng (intersection eng (geometry c) g)) (area eng g)
             (area eng (geometry c)) = Inr ok"
      and rest: "tz_country_loop eng cfg g (area eng g) rest
                   (if ok then insert (normalizedCountry cfg (attribute c)) acc else acc) = Inr r"
      by (auto split: sum.splits)
    from ok True have m: "country_matches_tz eng c g = ok"
      by (auto simp: dual_threshold_Inr country_matches_tz_def)
    from Cons.IH[OF rest] m True show ?thesis
      by (auto simp: feature_countries_def)
  qed
qed

lemma find_snoc:
  "find P (xs @ [x]) = (case find P xs of None \<Rightarrow> (if P x then Some x else None) | Some y \<Rightarrow> Some y)"
  by (induction xs) auto

lemma tz_loop_last_feature:
  "tz_loop eng cfg countries tzs d0 = Inr d \<Longrightarrow>
     map_of d tzId =
       (case find (\<lambda>tz. attribute tz = tzId) (rev tzs) of
          None \<Rightarrow> map_of d0 tzId
        | Some tz \<Rightarrow> Some (feature_countries eng cfg countries (geometry tz)))"
proof (induction tzs arbitrary: d0)
  case Nil then show ?case by simp
next
  case (Cons tz rest)
  from Cons.prems obtain cs where
    cs: "tz_country_loop eng cfg (geometry tz) (area eng (geometry tz)) countries {} = Inr cs"
    and r: "tz_loop eng cfg countries rest
       (AList.update (attribute tz) cs (AList.update (attribute tz) {} d0)) = Inr d"
    by (auto simp del: update_last simp: Let_def feature_in_keys_def map_of_update_if split: sum.splits)
  have cs_eq: "cs = feature_countries eng cfg countries (geometry tz)"
    using tz_country_loop_result[OF cs] by simp
  have look: "map_of (AList.update (attribute tz) cs (AList.update (attribute tz) {} d0)) tzId
      = (if tzId = attribute tz then Some cs else map_of d0 tzId)"
    by (simp add: map_of_update_if del: update_last)
  show ?case
    unfolding Cons.IH[OF r] look cs_eq
    by (auto simp: find_snoc map_of_update_if split: option.splits)
qed

text \<open>
  C1 claims that the candidate set of a timezone identifier is the union of the matches of
  all features bearing it. On \<^const>\<open>ex_dup_ctx\<close> that union is \<open>{DE}\<close>, but the run holds the
  empty set for the identifier (the matches of its last feature) and writes a comment
  instead of the row for Germany.
\<close>

theorem C1_last_feature_only:
  "tz_loop cells_engine ex_cfg (countryLayer ex_dup_ctx) (tzLayer ex_dup_ctx) []
     = Inr [(''Europe/Berlin'', {})]
   \<and> qualifying_countries cells_engine ex_cfg (countryLayer ex_dup_ctx) (tzLayer ex_dup_ctx)
        ''Europe/Berlin'' = {''DE''}
   \<and> tz_lines enum_asc ex_cfg [(''Europe/Berlin'', {})] = [TzComment ''Europe/Berlin'']"
proof -
  have a: "tz_loop cells_engine ex_cfg (countryLayer ex_dup_ctx) (tzLayer ex_dup_ctx) []
     = Inr [(''Europe/Berlin'', {})]" by code_simp
  have b: "qualifying_countries cells_engine ex_cfg (countryLayer ex_dup_ctx) (tzLayer ex_dup_ctx)
        ''Europe/Berlin'' = {''DE''}" by code_simp
  have c: "tz_lines enum_asc ex_cfg [(''Europe/Berlin'', {})] = [TzComment ''Europe/Berlin'']"
    by (simp add: tz_lines_def disambiguateCountries_def)
  from a b c show ?thesis by blast
qed

subsection \<open>Independence of the enumeration order of sets\<close>

lemma sorted_tzIds_enum:
  "valid_enum enum1 \<Longrightarrow> valid_enum enum2 \<Longrightarrow> sorted_tzIds enum1 layer = sorted_tzIds enum2 layer"
  by (simp add: sorted_tzIds_def valid_enum_sort finite_collect)

lemma hd_enum_singleton:
  assumes "valid_enum enum1" "valid_enum enum2" "card S = 1"
  shows "hd (enum1 S) = hd (enum2 S)"
proof -
  from assms(3) obtain x where "S = {x}" by (auto simp: card_1_singleton_iff)
  then show ?thesis using valid_enum_hd[OF assms(1), of x] valid_enum_hd[OF assms(2), of x] by simp
qed

lemma country_rows_enum:
  assumes "valid_enum enum1" "valid_enum enum2"
  shows "country_rows enum1 d = country_rows enum2 d"
  unfolding country_rows_alt
  by (rule map_cong[OF refl]) (simp add: hd_enum_singleton[OF assms])

lemma tz_lines_enum:
  assumes "valid_enum enum1" "valid_enum enum2"
  shows "tz_lines enum1 cfg d = tz_lines enum2 cfg d"
  unfolding tz_lines_def
  by (rule map_cong[OF refl]) (simp add: hd_enum_singleton[OF assms])

text \<open>
  C9. Two runs of the same task on the same layers (the same features in the same order,
  the same geometry results, the same configuration) write the same files with the same text
  and end the same way, whatever order each run enumerates its sets in.
\<close>

theorem C9_runs_agree:
  assumes "valid_enum enum1" and "valid_enum enum2"
  shows "TimezoneStringTableTask_run enum1 ctx = TimezoneStringTableTask_run enum2 ctx
    \<and> RegionToTimezoneMapTask_run enum1 eng cfg ctx = RegionToTimezoneMapTask_run enum2 eng cfg ctx
    \<and> TimezoneToCountryMapTask_run enum1 eng cfg ctx = TimezoneToCountryMapTask_run enum2 eng cfg ctx"
proof -
  have t1: "TimezoneStringTableTask_run enum1 ctx = TimezoneStringTableTask_run enum2 ctx"
    by (simp add: TimezoneStringTableTask_run_def sorted_tzIds_enum[OF assms])
  have t2: "RegionToTimezoneMapTask_run enum1 eng cfg ctx = RegionToTimezoneMapTask_run enum2 eng cfg ctx"
    by (simp add: RegionToTimezoneMapTask_run_def country_rows_enum[OF assms] split: sum.splits)
  have t3: "TimezoneToCountryMapTask_run enum1 eng cfg ctx = TimezoneToCountryMapTask_run enum2 eng cfg ctx"
    by (simp add: TimezoneToCountryMapTask_run_def tz_lines_enum[OF assms] split: sum.splits)
  from t1 t2 t3 show ?thesis by blast
qed

theorem C9_runs_agree_witness:
  "valid_enum enum_asc \<and> valid_enum enum_desc
   \<and> enum_asc {''DE'', ''US''} = [''DE'', ''US'']
   \<and> enum_desc {''DE'', ''US''} = [''US'', ''DE'']
   \<and> TimezoneStringTableTask_run enum_asc ex_ctx = TimezoneStringTableTask_run enum_desc ex_ctx
   \<and> RegionToTimezoneMapTask_run enum_asc cells_engine ex_cfg ex_ctx
       = RegionToTimezoneMapTask_run enum_desc cells_engine ex_cfg ex_ctx
   \<and> TimezoneToCountryMapTask_run enum_asc cells_engine ex_cfg ex_ctx
       = TimezoneToCountryMapTask_run enum_desc cells_engine ex_cfg ex_ctx"
proof -
  have a: "enum_asc {''DE'', ''US''} = [''DE'', ''US'']" unfolding enum_asc_def by code_simp
  have d: "enum_desc {''DE'', ''US''} = [''US'', ''DE'']" unfolding enum_desc_def by code_simp
  note inst = C9_runs_agree[OF valid_enum_asc valid_enum_desc, of ex_ctx cells_engine ex_cfg]
  from inst a d valid_enum_asc valid_enum_desc show ?thesis by blast
qed

end
